theory Spec2Isabelle
  imports Main
begin

section \<open>Strings of the JavaScript runtime\<close>

text \<open>
  A JavaScript string is a sequence of UTF-16 code units; a code unit is modelled as a
  natural number. \<open>ascii\<close> turns an ASCII literal into such a string. The constants of
  \<^verbatim>\<open>openrouterService.ts\<close> that hold non-ASCII text are written out as code units.
\<close>

type_synonym ustring = "nat list"

definition ascii :: "string \<Rightarrow> ustring" where
  "ascii s = map of_char s"

definition LF :: nat where
  "LF = 10"

text \<open>\<^verbatim>\<open>s.indexOf(c)\<close> for a single code unit: the first index, or \<open>None\<close> for -1.\<close>

fun indexOf :: "ustring \<Rightarrow> nat \<Rightarrow> nat option" where
  "indexOf [] c = None"
| "indexOf (x # xs) c = (if x = c then Some 0 else map_option Suc (indexOf xs c))"

text \<open>
  The code units \<^verbatim>\<open>String.prototype.trim\<close> strips: ECMAScript's WhiteSpace
  (TAB, VT, FF, SP, NBSP, ZWNBSP and the category Zs) and LineTerminator (LF, CR, LS, PS).
\<close>

definition isWhiteSpace :: "nat \<Rightarrow> bool" where
  "isWhiteSpace c \<longleftrightarrow>
     (9 \<le> c \<and> c \<le> 13) \<or> c = 32 \<or> c = 160 \<or> c = 5760 \<or> (8192 \<le> c \<and> c \<le> 8202) \<or>
     c = 8232 \<or> c = 8233 \<or> c = 8239 \<or> c = 8287 \<or> c = 12288 \<or> c = 65279"

definition trim :: "ustring \<Rightarrow> ustring" where
  "trim s = rev (dropWhile isWhiteSpace (rev (dropWhile isWhiteSpace s)))"

definition startsWith :: "ustring \<Rightarrow> ustring \<Rightarrow> bool" where
  "startsWith s p \<longleftrightarrow> take (length p) s = p"

text \<open>\<^verbatim>\<open>s.split('\n')\<close>: the pieces between line feeds; one piece more than line feeds.\<close>

fun split_lines :: "ustring \<Rightarrow> ustring list" where
  "split_lines [] = [[]]"
| "split_lines (c # cs) =
     (if c = LF then [] # split_lines cs
      else (case split_lines cs of [] \<Rightarrow> [[c]] | l # ls \<Rightarrow> (c # l) # ls))"

text \<open>Decimal rendering of a natural number, as a template literal renders an integer.\<close>

fun decimal :: "nat \<Rightarrow> ustring" where
  "decimal n = (if n < 10 then [48 + n] else decimal (n div 10) @ [48 + n mod 10])"

declare decimal.simps [simp del]

section \<open>JSON values and the runtime's operations on them\<close>

text \<open>
  The values \<^verbatim>\<open>JSON.parse\<close> and \<^verbatim>\<open>response.json()\<close> produce. A number is
  identified by its canonical rendering (what \<^verbatim>\<open>String(n)\<close> gives), which is all the
  code observes of it: it is falsy exactly when it renders as \<^verbatim>\<open>0\<close>. The members of
  an object are kept in source order; a key written twice has its last value.
  \<open>json option\<close> is a JavaScript value that may be \<^verbatim>\<open>undefined\<close> (\<open>None\<close>).
\<close>

datatype json =
    JNull
  | JBool bool
  | JNum ustring
  | JStr ustring
  | JArr "json list"
  | JObj "(ustring \<times> json) list"

datatype error =
    Error ustring
  | SyntaxError
  | TypeError
  | NetworkError

text \<open>
  \<^verbatim>\<open>v.name\<close> on a value that is neither null nor undefined, for the names this module
  reads (choices, delta, content, message, error): only an object can have them.
\<close>

fun named :: "ustring \<Rightarrow> json \<Rightarrow> json option" where
  "named k (JObj kvs) = map_of (rev kvs) k"
| "named k v = None"

text \<open>
  \<^verbatim>\<open>v[0]\<close> on a value that is neither null nor undefined: the first element of an
  array, the first code unit of a string, the member \<^verbatim>\<open>"0"\<close> of an object.
\<close>

fun first :: "json \<Rightarrow> json option" where
  "first (JArr xs) = (case xs of [] \<Rightarrow> None | x # _ \<Rightarrow> Some x)"
| "first (JStr s) = (case s of [] \<Rightarrow> None | c # _ \<Rightarrow> Some (JStr [c]))"
| "first (JObj kvs) = map_of (rev kvs) (ascii ''0'')"
| "first v = None"

fun nullish :: "json option \<Rightarrow> bool" where
  "nullish None = True"
| "nullish (Some JNull) = True"
| "nullish (Some v) = False"

text \<open>Truthiness, as \<^verbatim>\<open>if (v)\<close> and \<^verbatim>\<open>v || w\<close> test it.\<close>

fun truthy :: "json option \<Rightarrow> bool" where
  "truthy None = False"
| "truthy (Some JNull) = False"
| "truthy (Some (JBool b)) = b"
| "truthy (Some (JNum r)) = (r \<noteq> ascii ''0'')"
| "truthy (Some (JStr s)) = (s \<noteq> [])"
| "truthy (Some (JArr xs)) = True"
| "truthy (Some (JObj kvs)) = True"

text \<open>
  String coercion, as \<^verbatim>\<open>fullText += content\<close> and a template literal apply it.
  An array is joined with commas, null elements rendering empty; a plain object renders
  as \<^verbatim>\<open>[object Object]\<close>, and one that has a member \<^verbatim>\<open>toString\<close> of its own
  (never a function in parsed JSON) cannot be converted: a TypeError, \<open>None\<close> here.
\<close>

fun join :: "ustring list \<Rightarrow> ustring" where
  "join [] = []"
| "join [s] = s"
| "join (s # t # ss) = s @ ascii '','' @ join (t # ss)"

fun those_all :: "'a option list \<Rightarrow> 'a list option" where
  "those_all [] = Some []"
| "those_all (None # xs) = None"
| "those_all (Some x # xs) = map_option ((#) x) (those_all xs)"

fun toString :: "json \<Rightarrow> ustring option" where
  "toString JNull = Some (ascii ''null'')"
| "toString (JBool b) = Some (if b then ascii ''true'' else ascii ''false'')"
| "toString (JNum r) = Some r"
| "toString (JStr s) = Some s"
| "toString (JArr xs) =
     map_option join (those_all (map (\<lambda>x. if x = JNull then Some [] else toString x) xs))"
| "toString (JObj kvs) =
     (if map_of (rev kvs) (ascii ''toString'') \<noteq> None then None
      else Some (ascii ''[object Object]''))"

section \<open>The stream decoder\<close>

text \<open>
  The state of one call of \<^verbatim>\<open>sendStreamingChatRequest\<close>: its two local accumulators,
  and the arguments \<^verbatim>\<open>onChunk\<close> has been invoked with so far, in order.
\<close>

record decoder =
  buffer :: ustring
  fullText :: ustring
  calls :: "json list"

text \<open>
  \<^verbatim>\<open>JSON.parse\<close> is the runtime's: the decoder takes it as a parameter, \<open>None\<close> being
  the SyntaxError it throws. The caller's \<^verbatim>\<open>onChunk\<close> is a parameter too: given the
  arguments of its earlier invocations and the present one, it returns or throws.
\<close>

type_synonym parser = "ustring \<Rightarrow> json option"
type_synonym callback = "json list \<Rightarrow> json \<Rightarrow> error + unit"

text \<open>\<^verbatim>\<open>parsed.choices[0]?.delta?.content\<close>; \<open>Inl\<close> is the TypeError of reading a
  member of null or undefined.\<close>

definition delta_content :: "json \<Rightarrow> error + json option" where
  "delta_content parsed =
     (if nullish (Some parsed) then Inl TypeError
      else let choices = named (ascii ''choices'') parsed
      in if nullish choices then Inl TypeError
         else let choice = first (the choices)
         in if nullish choice then Inr None
            else let delta = named (ascii ''delta'') (the choice)
            in if nullish delta then Inr None
               else Inr (named (ascii ''content'') (the delta)))"

text \<open>
  The body of the \<^verbatim>\<open>try\<close> in \<^verbatim>\<open>processLines\<close> with its \<^verbatim>\<open>catch\<close>, which only
  logs: whatever is thrown between \<^verbatim>\<open>JSON.parse\<close> and \<^verbatim>\<open>fullText += content\<close>
  (the callback's own exception included) ends the frame and nothing else.
\<close>

definition tryFrame :: "parser \<Rightarrow> callback \<Rightarrow> decoder \<Rightarrow> ustring \<Rightarrow> decoder" where
  "tryFrame parse onChunk st data =
     (case parse data of
        None \<Rightarrow> st
      | Some parsed \<Rightarrow>
          (case delta_content parsed of
             Inl e \<Rightarrow> st
           | Inr content \<Rightarrow>
               if truthy content then
                 (let st1 = st\<lparr>calls := calls st @ [the content]\<rparr>
                  in case onChunk (calls st) (the content) of
                       Inl e \<Rightarrow> st1
                     | Inr _ \<Rightarrow>
                         (case toString (the content) of
                            None \<Rightarrow> st1
                          | Some s \<Rightarrow> st1\<lparr>fullText := fullText st1 @ s\<rparr>))
               else st))"

lemma indexOf_less: "indexOf xs c = Some i \<Longrightarrow> i < length xs"
  by (induction xs arbitrary: i) (auto split: if_splits)

lemma buffer_tryFrame [simp]: "buffer (tryFrame parse onChunk st data) = buffer st"
  by (simp add: tryFrame_def Let_def split: option.splits sum.splits)

text \<open>
  \<^verbatim>\<open>processLines\<close>: drain complete lines from the buffer. The \<^verbatim>\<open>return\<close> on the
  sentinel leaves this function only; the rest of the buffer stays where it is.
\<close>

function processLines :: "parser \<Rightarrow> callback \<Rightarrow> decoder \<Rightarrow> decoder" where
  "processLines parse onChunk st =
     (case indexOf (buffer st) LF of
        None \<Rightarrow> st
      | Some lineEnd \<Rightarrow>
          (let line = trim (take lineEnd (buffer st));
               st1 = st\<lparr>buffer := drop (lineEnd + 1) (buffer st)\<rparr>
           in if line = [] \<or> \<not> startsWith line (ascii ''data: '') then
                processLines parse onChunk st1
              else
                (let data = drop 6 line
                 in if data = ascii ''[DONE]'' then st1
                    else processLines parse onChunk (tryFrame parse onChunk st1 data))))"
  by pat_completeness auto
termination
  by (relation "measure (\<lambda>(parse, onChunk, st). length (buffer st))")
     (auto dest: indexOf_less)

declare processLines.simps [simp del]

section \<open>A reader of JSON text\<close>

text \<open>
  The general theorems below hold for every \<open>parser\<close>. The closed examples need one
  that runs: \<open>json_parse\<close> reads JSON text as \<^verbatim>\<open>JSON.parse\<close> does, for texts whose
  numbers are integer literals of at most 15 digits (where the rendering of the number
  is the literal itself, \<^verbatim>\<open>-0\<close> rendering as \<^verbatim>\<open>0\<close>); a text with any other
  number is outside what it reads, and no example has one. The first argument of the
  three mutually recursive readers bounds their depth; \<open>json_parse\<close> starts them with
  one more than the text's length (a value, an element or a member takes at most two
  steps of the bound and two code units or more of the text).
\<close>

definition isJsonSpace :: "nat \<Rightarrow> bool" where
  "isJsonSpace c \<longleftrightarrow> c = 32 \<or> c = 9 \<or> c = 10 \<or> c = 13"

definition skip_ws :: "ustring \<Rightarrow> ustring" where
  "skip_ws s = dropWhile isJsonSpace s"

definition hex_digit :: "nat \<Rightarrow> nat option" where
  "hex_digit c =
     (if 48 \<le> c \<and> c \<le> 57 then Some (c - 48)
      else if 65 \<le> c \<and> c \<le> 70 then Some (c - 55)
      else if 97 \<le> c \<and> c \<le> 102 then Some (c - 87)
      else None)"

definition unescape :: "nat \<Rightarrow> nat option" where
  "unescape e =
     (if e = 34 \<or> e = 92 \<or> e = 47 then Some e
      else if e = 98 then Some 8
      else if e = 102 then Some 12
      else if e = 110 then Some 10
      else if e = 114 then Some 13
      else if e = 116 then Some 9
      else None)"

definition cons_string :: "nat \<Rightarrow> (ustring \<times> ustring) option \<Rightarrow> (ustring \<times> ustring) option" where
  "cons_string c r = map_option (\<lambda>(t, rest). (c # t, rest)) r"

text \<open>The text of a string after its opening quote: its code units, and what follows
  the closing quote.\<close>

fun string_body :: "ustring \<Rightarrow> (ustring \<times> ustring) option" where
  "string_body [] = None"
| "string_body (c # cs) =
     (if c = 34 then Some ([], cs)
      else if c = 92 then
        (case cs of
           [] \<Rightarrow> None
         | e # cs1 \<Rightarrow>
             if e = 117 then
               (case cs1 of
                  h1 # h2 # h3 # h4 # cs2 \<Rightarrow>
                    (case (hex_digit h1, hex_digit h2, hex_digit h3, hex_digit h4) of
                       (Some a, Some b, Some c', Some d) \<Rightarrow>
                         cons_string (((a * 16 + b) * 16 + c') * 16 + d) (string_body cs2)
                     | _ \<Rightarrow> None)
                | _ \<Rightarrow> None)
             else
               (case unescape e of
                  None \<Rightarrow> None
                | Some x \<Rightarrow> cons_string x (string_body cs1)))
      else if c < 32 then None
      else cons_string c (string_body cs))"

definition isDigit :: "nat \<Rightarrow> bool" where
  "isDigit c \<longleftrightarrow> 48 \<le> c \<and> c \<le> 57"

text \<open>An integer literal: an optional minus, then \<^verbatim>\<open>0\<close> or digits not starting with
  \<^verbatim>\<open>0\<close>; nothing that continues a number may follow.\<close>

definition number :: "ustring \<Rightarrow> (json \<times> ustring) option" where
  "number s =
     (let neg = (s \<noteq> [] \<and> hd s = 45);
          body = (if neg then tl s else s);
          digits = takeWhile isDigit body;
          rest = dropWhile isDigit body
      in if digits = [] \<or> 15 < length digits \<or> (hd digits = 48 \<and> length digits \<noteq> 1) then None
         else if rest \<noteq> [] \<and> (hd rest = 46 \<or> hd rest = 101 \<or> hd rest = 69) then None
         else Some (JNum (if neg \<and> digits \<noteq> [48] then 45 # digits else digits), rest))"

definition literal :: "ustring \<Rightarrow> (json \<times> ustring) option" where
  "literal s =
     (if startsWith s (ascii ''true'') then Some (JBool True, drop 4 s)
      else if startsWith s (ascii ''false'') then Some (JBool False, drop 5 s)
      else if startsWith s (ascii ''null'') then Some (JNull, drop 4 s)
      else number s)"

fun parse_value :: "nat \<Rightarrow> ustring \<Rightarrow> (json \<times> ustring) option"
  and parse_elements :: "nat \<Rightarrow> ustring \<Rightarrow> (json list \<times> ustring) option"
  and parse_members :: "nat \<Rightarrow> ustring \<Rightarrow> ((ustring \<times> json) list \<times> ustring) option"
where
  "parse_value 0 s = None"
| "parse_value (Suc n) s =
     (case skip_ws s of
        [] \<Rightarrow> None
      | c # cs \<Rightarrow>
          if c = 34 then map_option (\<lambda>(t, r). (JStr t, r)) (string_body cs)
          else if c = 91 then
            (case skip_ws cs of
               [] \<Rightarrow> None
             | d # r \<Rightarrow>
                 if d = 93 then Some (JArr [], r)
                 else map_option (\<lambda>(xs, r'). (JArr xs, r')) (parse_elements n cs))
          else if c = 123 then
            (case skip_ws cs of
               [] \<Rightarrow> None
             | d # r \<Rightarrow>
                 if d = 125 then Some (JObj [], r)
                 else map_option (\<lambda>(kvs, r'). (JObj kvs, r')) (parse_members n cs))
          else literal (c # cs))"
| "parse_elements 0 s = None"
| "parse_elements (Suc n) s =
     (case parse_value n s of
        None \<Rightarrow> None
      | Some (x, r) \<Rightarrow>
          (case skip_ws r of
             [] \<Rightarrow> None
           | c # r1 \<Rightarrow>
               if c = 44 then map_option (\<lambda>(xs, r2). (x # xs, r2)) (parse_elements n r1)
               else if c = 93 then Some ([x], r1)
               else None))"
| "parse_members 0 s = None"
| "parse_members (Suc n) s =
     (case skip_ws s of
        [] \<Rightarrow> None
      | q # s1 \<Rightarrow>
          if q \<noteq> 34 then None
          else
            (case string_body s1 of
               None \<Rightarrow> None
             | Some (k, s2) \<Rightarrow>
                 (case skip_ws s2 of
                    [] \<Rightarrow> None
                  | colon # s3 \<Rightarrow>
                      if colon \<noteq> 58 then None
                      else
                        (case parse_value n s3 of
                           None \<Rightarrow> None
                         | Some (v, r) \<Rightarrow>
                             (case skip_ws r of
                                [] \<Rightarrow> None
                              | c # r1 \<Rightarrow>
                                  if c = 44 then
                                    map_option (\<lambda>(kvs, r2). ((k, v) # kvs, r2)) (parse_members n r1)
                                  else if c = 125 then Some ([(k, v)], r1)
                                  else None)))))"

definition json_parse :: parser where
  "json_parse s =
     (case parse_value (Suc (length s)) s of
        None \<Rightarrow> None
      | Some (v, r) \<Rightarrow> if skip_ws r = [] then Some v else None)"

section \<open>Configuration, requests and responses\<close>

datatype role = User | Assistant | System

record message =
  role :: role
  content :: ustring

text \<open>
  The object \<^verbatim>\<open>JSON.stringify\<close> serialises into the request. A number is given by its
  rendering; \<open>stream\<close> is \<open>None\<close> where the member is absent.
\<close>

record chat_body =
  model :: ustring
  messages :: "message list"
  temperature :: ustring
  stream :: "bool option"

record request =
  url :: ustring
  http_method :: ustring
  headers :: "(ustring \<times> ustring) list"
  req_body :: chat_body

text \<open>
  One read of the body's reader: \<open>Inl e\<close> when \<^verbatim>\<open>reader.read()\<close> rejects with \<open>e\<close>,
  \<open>Inr text\<close> for a chunk, \<open>text\<close> being what
  \<^verbatim>\<open>decoder.decode(value, { stream: true })\<close> makes of it. After the last read of the
  list the reader reports \<^verbatim>\<open>done\<close>.
\<close>

type_synonym chunk = "error + ustring"

text \<open>
  What the module observes of a \<^verbatim>\<open>Response\<close>: \<open>json_result\<close> is what
  \<^verbatim>\<open>response.json()\<close> settles with, \<open>body\<close> is \<open>None\<close> when \<^verbatim>\<open>response.body\<close> is
  null, and otherwise the reads its reader will deliver.
\<close>

record response =
  status :: nat
  statusText :: ustring
  json_result :: "error + json"
  body :: "chunk list option"

definition ok :: "response \<Rightarrow> bool" where
  "ok r \<longleftrightarrow> 200 \<le> status r \<and> status r \<le> 299"

text \<open>
  The environment of a call: the two build-time variables (\<open>None\<close> when undefined) and
  the network, \<^verbatim>\<open>fetch\<close> rejecting with \<open>Inl e\<close> or resolving with a response.
\<close>

record env =
  VITE_OPENROUTER_API_KEY :: "ustring option"
  VITE_SITE_URL :: "ustring option"
  fetch :: "request \<Rightarrow> error + response"

definition API_URL :: ustring where
  "API_URL = ascii ''https://openrouter.ai/api/v1/chat/completions''"

definition API_KEY :: "env \<Rightarrow> ustring" where
  "API_KEY e = (case VITE_OPENROUTER_API_KEY e of None \<Rightarrow> [] | Some k \<Rightarrow> k)"

definition SITE_URL :: "env \<Rightarrow> ustring" where
  "SITE_URL e =
     (case VITE_SITE_URL e of
        None \<Rightarrow> ascii ''https://conceptmap.app''
      | Some v \<Rightarrow> if v = [] then ascii ''https://conceptmap.app'' else v)"

definition SITE_NAME :: ustring where
  "SITE_NAME = [20809, 22330, 24605, 32500, 22320, 22270]"

text \<open>\<^verbatim>\<open>encodeURIComponent(SITE_NAME)\<close>: the UTF-8 bytes of the six characters, escaped.\<close>

definition encodedSiteName :: ustring where
  "encodedSiteName = ascii ''%E5%85%89%E5%9C%BA%E6%80%9D%E7%BB%B4%E5%9C%B0%E5%9B%BE''"

text \<open>The messages of the errors the module constructs.\<close>

definition missing_key_message :: ustring where
  "missing_key_message =
     [26410, 37197, 32622, 32, 79, 112, 101, 110, 82, 111, 117, 116, 101, 114, 32, 65, 80, 73,
      32, 23494, 38053]"

definition request_failed :: ustring where
  "request_failed = [65, 80, 73, 32, 35831, 27714, 22833, 36133, 58, 32]"

definition body_unreadable_message :: ustring where
  "body_unreadable_message = [21709, 24212, 20307, 19981, 21487, 35835]"

text \<open>The effects of a call that the claims speak of, in the order they happen.\<close>

datatype event =
    Fetch request
  | OnChunk json
  | Cancel

fun deltas :: "event list \<Rightarrow> json list" where
  "deltas [] = []"
| "deltas (OnChunk d # es) = d # deltas es"
| "deltas (e # es) = deltas es"

section \<open>sendChatRequest\<close>

text \<open>
  What \<^verbatim>\<open>errorData.error?.message || response.statusText\<close> renders to inside the
  template literal; \<open>Inl\<close> when evaluating it throws.
\<close>

definition error_text :: "json \<Rightarrow> ustring \<Rightarrow> error + ustring" where
  "error_text errorData status_text =
     (if nullish (Some errorData) then Inl TypeError
      else let err = named (ascii ''error'') errorData;
               msg = (if nullish err then None else named (ascii ''message'') (the err))
      in if truthy msg then
           (case toString (the msg) of None \<Rightarrow> Inl TypeError | Some s \<Rightarrow> Inr s)
         else Inr status_text)"

text \<open>The two statements both functions run on a response that is not ok; they always
  throw, and this is what they throw.\<close>

definition api_failure :: "response \<Rightarrow> error" where
  "api_failure r =
     (case json_result r of
        Inl e \<Rightarrow> e
      | Inr errorData \<Rightarrow>
          (case error_text errorData (statusText r) of
             Inl e \<Rightarrow> e
           | Inr t \<Rightarrow> Error (request_failed @ t)))"

text \<open>\<^verbatim>\<open>data.choices[0]?.message.content || ''\<close>\<close>

definition message_content :: "json \<Rightarrow> error + json" where
  "message_content data =
     (if nullish (Some data) then Inl TypeError
      else let choices = named (ascii ''choices'') data
      in if nullish choices then Inl TypeError
         else let choice = first (the choices)
         in if nullish choice then Inr (JStr [])
            else let msg = named (ascii ''message'') (the choice)
            in if nullish msg then Inl TypeError
               else let c = named (ascii ''content'') (the msg)
               in if truthy c then Inr (the c) else Inr (JStr []))"

definition chat_request :: "env \<Rightarrow> message list \<Rightarrow> ustring \<Rightarrow> ustring \<Rightarrow> request" where
  "chat_request e msgs mdl temp =
     \<lparr>url = API_URL, http_method = ascii ''POST'',
      headers =
        [(ascii ''Authorization'', ascii ''Bearer '' @ API_KEY e),
         (ascii ''HTTP-Referer'', SITE_URL e),
         (ascii ''X-Title'', encodedSiteName),
         (ascii ''Content-Type'', ascii ''application/json'')],
      req_body = \<lparr>model = mdl, messages = msgs, temperature = temp, stream = None\<rparr>\<rparr>"

text \<open>
  The result of the promise (\<open>Inl\<close> when it rejects) and the events of the call. The
  outer \<^verbatim>\<open>catch\<close> logs and rethrows, which changes neither.
\<close>

definition sendChatRequest ::
  "env \<Rightarrow> message list \<Rightarrow> ustring \<Rightarrow> ustring \<Rightarrow> (error + json) \<times> event list" where
  "sendChatRequest e msgs mdl temp =
     (if API_KEY e = [] then (Inl (Error missing_key_message), [])
      else let req = chat_request e msgs mdl temp
      in ((case fetch e req of
             Inl err \<Rightarrow> Inl err
           | Inr r \<Rightarrow>
               if \<not> ok r then Inl (api_failure r)
               else (case json_result r of
                       Inl err \<Rightarrow> Inl err
                     | Inr data \<Rightarrow> message_content data)),
          [Fetch req]))"

section \<open>generateSuggestions\<close>

definition prompt_head :: ustring where
  "prompt_head =
     [10, 32, 32, 25105, 27491, 22312, 26500, 24314, 19968, 20010, 27010, 24565, 22320, 22270,
      65292, 20854, 20013, 26377, 20197, 19979, 20869, 23481, 30340, 33410, 28857, 58, 10, 32,
      32, 34]"

definition prompt_tail :: ustring where
  "prompt_tail =
     [34, 10, 32, 32, 10, 32, 32, 35831, 25552, 20379, 53, 20010, 30456, 20851, 27010, 24565,
      25110, 24819, 27861, 65292, 36825, 20123, 27010, 24565, 21487, 20197, 19982, 27492, 33410,
      28857, 30456, 36830, 25509, 12290, 31616, 27905, 22238, 31572, 65292, 27599, 34892, 19968,
      20010, 27010, 24565, 65292, 19981, 38656, 35201, 39069, 22806, 35299, 37322, 12290, 10, 32,
      32]"

definition system_prompt :: ustring where
  "system_prompt =
     [20320, 26159, 19968, 20010, 24110, 21161, 29992, 25143, 26500, 24314, 30693, 35782, 22320,
      22270, 30340, 21161, 25163, 65292, 25797, 38271, 20851, 32852, 27010, 24565, 21644, 25552,
      20379, 27934, 35265, 12290, 35831, 20445, 25345, 22238, 31572, 31616, 27905, 12289, 26377,
      21551, 21457, 24615, 12290]"

definition placeholder :: ustring where
  "placeholder =
     [26080, 27861, 29983, 25104, 24314, 35758, 65292, 35831, 31245, 21518, 20877, 35797]"

definition suggestion_messages :: "ustring \<Rightarrow> message list" where
  "suggestion_messages nodeContent =
     [\<lparr>role = System, content = system_prompt\<rparr>,
      \<lparr>role = User, content = prompt_head @ nodeContent @ prompt_tail\<rparr>]"

text \<open>
  The chain on the response inside the \<^verbatim>\<open>try\<close>. A resolved value that is not a
  string has no callable \<^verbatim>\<open>split\<close>: a TypeError.
\<close>

definition split_response :: "json \<Rightarrow> error + ustring list" where
  "split_response r =
     (case r of
        JStr s \<Rightarrow> Inr (take 5 (filter (\<lambda>line. length line > 0) (map trim (split_lines s))))
      | _ \<Rightarrow> Inl TypeError)"

text \<open>The call runs \<^verbatim>\<open>sendChatRequest\<close> with its default model and temperature; the
  \<^verbatim>\<open>catch\<close> turns whatever the \<^verbatim>\<open>try\<close> threw into the placeholder list.\<close>

definition generateSuggestions :: "env \<Rightarrow> ustring \<Rightarrow> (error + ustring list) \<times> event list" where
  "generateSuggestions e nodeContent =
     (let (result, events) =
            sendChatRequest e (suggestion_messages nodeContent) (ascii ''openai/gpt-4o'') (ascii ''0.7'');
          tried = (case result of Inl err \<Rightarrow> Inl err | Inr r \<Rightarrow> split_response r)
      in ((case tried of Inl err \<Rightarrow> Inr [placeholder] | Inr lines \<Rightarrow> Inr lines), events))"

section \<open>sendStreamingChatRequest\<close>

definition streaming_request :: "env \<Rightarrow> message list \<Rightarrow> ustring \<Rightarrow> ustring \<Rightarrow> request" where
  "streaming_request e msgs mdl temp =
     \<lparr>url = API_URL, http_method = ascii ''POST'',
      headers =
        [(ascii ''Authorization'', ascii ''Bearer '' @ API_KEY e),
         (ascii ''HTTP-Referer'', SITE_URL e),
         (ascii ''Content-Type'', ascii ''application/json'')],
      req_body = \<lparr>model = mdl, messages = msgs, temperature = temp, stream = Some True\<rparr>\<rparr>"

text \<open>
  The \<^verbatim>\<open>catch\<close> around the two statements of the failure path catches what they
  throw, the constructed error included, and throws the status line in its place.
\<close>

definition streaming_failure :: "response \<Rightarrow> error" where
  "streaming_failure r =
     (let thrown = api_failure r
      in Error (request_failed @ decimal (status r) @ ascii '' '' @ statusText r))"

text \<open>The \<^verbatim>\<open>while (true)\<close> loop over the reads: \<open>Some e\<close> when a read rejected.\<close>

fun read_loop :: "parser \<Rightarrow> callback \<Rightarrow> decoder \<Rightarrow> chunk list \<Rightarrow> error option \<times> decoder" where
  "read_loop parse onChunk st [] = (None, st)"
| "read_loop parse onChunk st (Inl e # rest) = (Some e, st)"
| "read_loop parse onChunk st (Inr text # rest) =
     read_loop parse onChunk (processLines parse onChunk (st\<lparr>buffer := buffer st @ text\<rparr>)) rest"

text \<open>What is left in the buffer when the reads are over gets a line feed and one more
  pass.\<close>

definition flush :: "parser \<Rightarrow> callback \<Rightarrow> decoder \<Rightarrow> decoder" where
  "flush parse onChunk st =
     (if trim (buffer st) \<noteq> [] then processLines parse onChunk (st\<lparr>buffer := buffer st @ [LF]\<rparr>)
      else st)"

text \<open>The inner \<^verbatim>\<open>try\<close> block, from the empty accumulators.\<close>

definition read_stream :: "parser \<Rightarrow> callback \<Rightarrow> chunk list \<Rightarrow> error option \<times> decoder" where
  "read_stream parse onChunk chunks =
     (case read_loop parse onChunk \<lparr>buffer = [], fullText = [], calls = []\<rparr> chunks of
        (Some e, st) \<Rightarrow> (Some e, st)
      | (None, st) \<Rightarrow> (None, flush parse onChunk st))"

text \<open>
  The whole call. Once the reader exists, the \<^verbatim>\<open>finally\<close> cancels it after the
  \<^verbatim>\<open>try\<close> block, however that ended.
\<close>

definition sendStreamingChatRequest ::
  "env \<Rightarrow> parser \<Rightarrow> message list \<Rightarrow> callback \<Rightarrow> ustring \<Rightarrow> ustring \<Rightarrow> (error + ustring) \<times> event list" where
  "sendStreamingChatRequest e parse msgs onChunk mdl temp =
     (if API_KEY e = [] then (Inl (Error missing_key_message), [])
      else let req = streaming_request e msgs mdl temp
      in (case fetch e req of
            Inl err \<Rightarrow> (Inl err, [Fetch req])
          | Inr r \<Rightarrow>
              if \<not> ok r then (Inl (streaming_failure r), [Fetch req])
              else
                (case body r of
                   None \<Rightarrow> (Inl (Error body_unreadable_message), [Fetch req])
                 | Some chunks \<Rightarrow>
                     (let (thrown, st) = read_stream parse onChunk chunks;
                          events = Fetch req # map OnChunk (calls st) @ [Cancel]
                      in (case thrown of
                            Some err \<Rightarrow> (Inl err, events)
                          | None \<Rightarrow> (Inr (fullText st), events))))))"

section \<open>Notions the properties are stated with\<close>

text \<open>What \<^verbatim>\<open>fullText += d\<close> appends for a delta \<open>d\<close> when it does not throw; a
  string delta is appended as it is.\<close>

definition rendered :: "json \<Rightarrow> ustring" where
  "rendered d = (case toString d of None \<Rightarrow> [] | Some s \<Rightarrow> s)"

text \<open>A parsed frame that lacks the expected shape: \<^verbatim>\<open>choices\<close>, its first
  element, that element's \<^verbatim>\<open>delta\<close> or the delta's \<^verbatim>\<open>content\<close> is missing.\<close>

definition lacks_shape :: "json \<Rightarrow> bool" where
  "lacks_shape j \<longleftrightarrow>
     (case named (ascii ''choices'') j of
        None \<Rightarrow> True
      | Some cs \<Rightarrow>
          (case first cs of
             None \<Rightarrow> True
           | Some c \<Rightarrow>
               (case named (ascii ''delta'') c of
                  None \<Rightarrow> True
                | Some d \<Rightarrow> named (ascii ''content'') d = None)))"

text \<open>The lines of a buffer that end in a line feed, and whether one of them is the
  sentinel frame.\<close>

definition complete_lines :: "ustring \<Rightarrow> ustring list" where
  "complete_lines buf = butlast (split_lines buf)"

definition sentinel_ahead :: "ustring \<Rightarrow> bool" where
  "sentinel_ahead buf \<longleftrightarrow> list_ex (\<lambda>l. trim l = ascii ''data: [DONE]'') (complete_lines buf)"

text \<open>What the spec says \<^verbatim>\<open>generateSuggestions\<close> makes of a response text: split
  on line feeds, each line trimmed, empty lines dropped, at most five kept.\<close>

definition suggestions_of :: "ustring \<Rightarrow> ustring list" where
  "suggestions_of s = take 5 (filter (\<lambda>l. l \<noteq> []) (map trim (split_lines s)))"

section \<open>Inputs for the closed examples\<close>

text \<open>
  An environment with a key, whose network answers every request with the given
  response; a successful streaming response with the given reads; a callback that always
  returns and one that always throws; the line of a frame whose delta is the given text,
  and the sentinel line (both without their line feed).
\<close>

definition demo_env :: "(request \<Rightarrow> error + response) \<Rightarrow> env" where
  "demo_env net =
     \<lparr>VITE_OPENROUTER_API_KEY = Some (ascii ''sk-demo''), VITE_SITE_URL = None, fetch = net\<rparr>"

definition streamed :: "chunk list \<Rightarrow> response" where
  "streamed chunks =
     \<lparr>status = 200, statusText = ascii ''OK'', json_result = Inl SyntaxError, body = Some chunks\<rparr>"

definition returns :: callback where
  "returns h d = Inr ()"

definition throws :: callback where
  "throws h d = Inl (Error (ascii ''boom''))"

definition delta_frame :: "string \<Rightarrow> ustring" where
  \<open>delta_frame s = ascii (''data: {"choices":[{"delta":{"content":"'' @ s @ ''"}}]}'')\<close>

definition done_frame :: ustring where
  "done_frame = ascii ''data: [DONE]''"

definition stream_demo :: "callback \<Rightarrow> chunk list \<Rightarrow> (error + ustring) \<times> event list" where
  "stream_demo onChunk chunks =
     sendStreamingChatRequest (demo_env (\<lambda>req. Inr (streamed chunks))) json_parse
       [\<lparr>role = User, content = ascii ''hi''\<rparr>] onChunk
       (ascii ''google/gemini-2.0-flash-lite-001'') (ascii ''0.7'')"

definition hello_chunks :: "chunk list" where
  "hello_chunks =
     [Inr (delta_frame ''Hel'' @ [LF]), Inr (delta_frame ''lo'' @ [LF] @ done_frame @ [LF])]"

definition fresh :: "ustring \<Rightarrow> decoder" where
  "fresh buf = \<lparr>buffer = buf, fullText = [], calls = []\<rparr>"

definition no_key_env :: "(request \<Rightarrow> error + response) \<Rightarrow> env" where
  "no_key_env net = \<lparr>VITE_OPENROUTER_API_KEY = None, VITE_SITE_URL = None, fetch = net\<rparr>"

text \<open>
  A response with the given status line whose body is the given text, as
  \<^verbatim>\<open>response.json()\<close> reads it; a successful completion whose first choice has the
  given content; and the calls of the three functions in the example environment.
\<close>

definition json_response :: "nat \<Rightarrow> string \<Rightarrow> string \<Rightarrow> response" where
  "json_response code reason body_text =
     \<lparr>status = code, statusText = ascii reason,
      json_result = (case json_parse (ascii body_text) of None \<Rightarrow> Inl SyntaxError | Some j \<Rightarrow> Inr j),
      body = None\<rparr>"

definition chat_demo :: "response \<Rightarrow> (error + json) \<times> event list" where
  "chat_demo r =
     sendChatRequest (demo_env (\<lambda>req. Inr r)) [\<lparr>role = User, content = ascii ''hi''\<rparr>]
       (ascii ''openai/gpt-4o'') (ascii ''0.7'')"

definition stream_failure_demo :: "response \<Rightarrow> (error + ustring) \<times> event list" where
  "stream_failure_demo r =
     sendStreamingChatRequest (demo_env (\<lambda>req. Inr r)) json_parse
       [\<lparr>role = User, content = ascii ''hi''\<rparr>] returns
       (ascii ''google/gemini-2.0-flash-lite-001'') (ascii ''0.7'')"

definition chat_response :: "ustring \<Rightarrow> response" where
  "chat_response s =
     \<lparr>status = 200, statusText = ascii ''OK'',
      json_result = Inr (JObj [(ascii ''choices'',
        JArr [JObj [(ascii ''message'',
          JObj [(ascii ''role'', JStr (ascii ''assistant'')), (ascii ''content'', JStr s)])]])]),
      body = None\<rparr>"

definition suggest_demo :: "ustring \<Rightarrow> (error + ustring list) \<times> event list" where
  "suggest_demo reply = generateSuggestions (demo_env (\<lambda>req. Inr (chat_response reply))) (ascii ''graph'')"

section \<open>Facts about the decoder\<close>

lemma indexOf_None: "indexOf xs c = None \<longleftrightarrow> c \<notin> set xs"
  by (induction xs) auto

lemma indexOf_append: "c \<notin> set l \<Longrightarrow> indexOf (l @ c # r) c = Some (length l)"
  by (induction l) auto

lemma indexOf_split:
  "indexOf xs c = Some i \<Longrightarrow> xs = take i xs @ c # drop (Suc i) xs \<and> c \<notin> set (take i xs)"
  by (induction xs arbitrary: i) (auto split: if_splits)

lemma processLines_no_line:
  "LF \<notin> set (buffer st) \<Longrightarrow> processLines parse onChunk st = st"
  by (subst processLines.simps) (simp add: indexOf_None [THEN iffD2])

lemma processLines_line:
  assumes "LF \<notin> set l"
  shows "processLines parse onChunk (st\<lparr>buffer := l @ LF # rest\<rparr>) =
     (if trim l = [] \<or> \<not> startsWith (trim l) (ascii ''data: '') then
        processLines parse onChunk (st\<lparr>buffer := rest\<rparr>)
      else if drop 6 (trim l) = ascii ''[DONE]'' then st\<lparr>buffer := rest\<rparr>
      else processLines parse onChunk (tryFrame parse onChunk (st\<lparr>buffer := rest\<rparr>) (drop 6 (trim l))))"
  by (subst processLines.simps) (simp add: indexOf_append [OF assms] Let_def)

lemma split_lines_nonempty [simp]: "split_lines s \<noteq> []"
  by (induction s) (auto split: list.splits)

lemma split_lines_no_LF: "LF \<notin> set l \<Longrightarrow> split_lines (l @ LF # rest) = l # split_lines rest"
  by (induction l) (auto split: list.splits)

lemma split_lines_single: "LF \<notin> set l \<Longrightarrow> split_lines l = [l]"
  by (induction l) (auto split: list.splits)

lemma complete_lines_line:
  "LF \<notin> set l \<Longrightarrow> complete_lines (l @ LF # rest) = l # complete_lines rest"
  by (simp add: complete_lines_def split_lines_no_LF)

lemma startsWith_append [simp]: "startsWith (p @ r) p"
  by (simp add: startsWith_def)

lemma startsWith_split: "startsWith t p \<Longrightarrow> t = p @ drop (length p) t"
  by (metis append_take_drop_id startsWith_def)

lemma length_data_prefix [simp]: "length (ascii ''data: '') = 6"
  by (simp add: ascii_def)

lemma data_prefix_nonempty [simp]: "ascii ''data: '' @ p \<noteq> []"
  by (simp add: ascii_def)

lemma data_prefix_ne [simp]: "ascii ''data: '' \<noteq> []"
  by (simp add: ascii_def)

lemma sentinel_frame: "ascii ''data: [DONE]'' = ascii ''data: '' @ ascii ''[DONE]''"
  by (simp add: ascii_def)

lemma sentinel_frame_iff:
  "t = ascii ''data: [DONE]'' \<longleftrightarrow>
     \<not> (t = [] \<or> \<not> startsWith t (ascii ''data: '')) \<and> drop 6 t = ascii ''[DONE]''"
proof
  assume "t = ascii ''data: [DONE]''"
  then show "\<not> (t = [] \<or> \<not> startsWith t (ascii ''data: '')) \<and> drop 6 t = ascii ''[DONE]''"
    by (simp add: sentinel_frame)
next
  assume a: "\<not> (t = [] \<or> \<not> startsWith t (ascii ''data: '')) \<and> drop 6 t = ascii ''[DONE]''"
  then have "t = ascii ''data: '' @ drop (length (ascii ''data: '')) t"
    using startsWith_split by blast
  with a show "t = ascii ''data: [DONE]''"
    by (simp add: sentinel_frame)
qed

lemma tryFrame_unparsed: "parse data = None \<Longrightarrow> tryFrame parse onChunk st data = st"
  by (simp add: tryFrame_def)

lemma nullish_None_iff: "nullish v \<longleftrightarrow> v = None \<or> v = Some JNull"
  by (cases v rule: nullish.cases) auto

lemma tryFrame_lacks_shape:
  assumes "parse data = Some j" and "lacks_shape j"
  shows "tryFrame parse onChunk st data = st"
proof (cases "delta_content j")
  case (Inl e)
  with assms(1) show ?thesis by (simp add: tryFrame_def)
next
  case (Inr c)
  have "c = None"
    using assms(2) Inr
    by (auto simp: lacks_shape_def delta_content_def Let_def nullish_None_iff
        split: option.splits if_splits)
  with assms(1) Inr show ?thesis by (simp add: tryFrame_def)
qed

lemma rendered_string [simp]: "rendered (JStr s) = s"
  by (simp add: rendered_def)

lemma rendered_invariant_tryFrame:
  assumes "\<forall>h d. onChunk h d = Inr ()"
    and "fullText st = concat (map rendered (calls st))"
  shows "fullText (tryFrame parse onChunk st data) =
         concat (map rendered (calls (tryFrame parse onChunk st data)))"
  using assms by (simp add: tryFrame_def Let_def rendered_def split: option.splits sum.splits)

lemma processLines_preserves:
  assumes "\<And>s data. P s \<Longrightarrow> P (tryFrame parse onChunk s data)"
    and "\<And>s b. P s \<Longrightarrow> P (s\<lparr>buffer := b\<rparr>)"
    and "P st"
  shows "P (processLines parse onChunk st)"
  using assms
proof (induction parse onChunk st rule: processLines.induct)
  case (1 parse onChunk st)
  show ?case
  proof (cases "indexOf (buffer st) LF")
    case None
    with "1.prems"(3) show ?thesis by (subst processLines.simps) simp
  next
    case (Some i)
    let ?line = "trim (take i (buffer st))"
    let ?st1 = "st\<lparr>buffer := drop (i + 1) (buffer st)\<rparr>"
    have P1: "P ?st1" using "1.prems"(2,3) by blast
    show ?thesis
    proof (cases "?line = [] \<or> \<not> startsWith ?line (ascii ''data: '')")
      case True
      have "P (processLines parse onChunk ?st1)"
        using "1.IH"(1) [OF Some refl refl True "1.prems"(1,2) P1] .
      with Some True show ?thesis by (subst processLines.simps) (simp add: Let_def)
    next
      case False
      show ?thesis
      proof (cases "drop 6 ?line = ascii ''[DONE]''")
        case True
        with Some False P1 show ?thesis by (subst processLines.simps) (simp add: Let_def)
      next
        case nd: False
        have "P (tryFrame parse onChunk ?st1 (drop 6 ?line))"
          using "1.prems"(1) P1 by blast
        then have "P (processLines parse onChunk (tryFrame parse onChunk ?st1 (drop 6 ?line)))"
          using "1.IH"(2) [OF Some refl refl False refl nd "1.prems"(1,2)] by blast
        with Some False nd show ?thesis by (subst processLines.simps) (simp add: Let_def)
      qed
    qed
  qed
qed

lemma rendered_invariant_processLines:
  assumes "\<forall>h d. onChunk h d = Inr ()"
    and "fullText st = concat (map rendered (calls st))"
  shows "fullText (processLines parse onChunk st) =
         concat (map rendered (calls (processLines parse onChunk st)))"
  by (rule processLines_preserves [where P = "\<lambda>s. fullText s = concat (map rendered (calls s))"])
     (simp_all add: rendered_invariant_tryFrame assms)

lemma rendered_invariant_read_loop:
  assumes "\<forall>h d. onChunk h d = Inr ()"
  shows "fullText st = concat (map rendered (calls st)) \<Longrightarrow>
         fullText (snd (read_loop parse onChunk st chunks)) =
         concat (map rendered (calls (snd (read_loop parse onChunk st chunks))))"
proof (induction chunks arbitrary: st)
  case Nil
  then show ?case by simp
next
  case (Cons c chunks)
  show ?case
  proof (cases c)
    case (Inl e)
    with Cons.prems show ?thesis by simp
  next
    case (Inr t)
    have "fullText (processLines parse onChunk (st\<lparr>buffer := buffer st @ t\<rparr>)) =
          concat (map rendered (calls (processLines parse onChunk (st\<lparr>buffer := buffer st @ t\<rparr>))))"
      using Cons.prems by (intro rendered_invariant_processLines [OF assms]) simp
    from Cons.IH [OF this] Inr show ?thesis by simp
  qed
qed

lemma rendered_invariant_read_stream:
  assumes "\<forall>h d. onChunk h d = Inr ()"
  shows "fullText (snd (read_stream parse onChunk chunks)) =
         concat (map rendered (calls (snd (read_stream parse onChunk chunks))))"
proof -
  let ?st0 = "\<lparr>buffer = [], fullText = [], calls = []\<rparr>"
  obtain thrown st where rl: "read_loop parse onChunk ?st0 chunks = (thrown, st)"
    by (cases "read_loop parse onChunk ?st0 chunks")
  have inv: "fullText st = concat (map rendered (calls st))"
    using rendered_invariant_read_loop [OF assms, of ?st0 parse chunks] rl by simp
  show ?thesis
  proof (cases thrown)
    case None
    have "fullText (flush parse onChunk st) = concat (map rendered (calls (flush parse onChunk st)))"
      unfolding flush_def using inv
      by (simp add: rendered_invariant_processLines [OF assms])
    with rl None show ?thesis by (simp add: read_stream_def)
  next
    case (Some e)
    with rl inv show ?thesis by (simp add: read_stream_def)
  qed
qed

lemma deltas_OnChunk [simp]: "deltas (map OnChunk ds @ es) = ds @ deltas es"
  by (induction ds) auto

lemma streaming_with_reader:
  assumes "API_KEY e \<noteq> []"
    and "fetch e (streaming_request e msgs mdl temp) = Inr r"
    and "ok r"
    and "body r = Some chunks"
  shows "sendStreamingChatRequest e parse msgs onChunk mdl temp =
     ((case fst (read_stream parse onChunk chunks) of
         Some err \<Rightarrow> Inl err
       | None \<Rightarrow> Inr (fullText (snd (read_stream parse onChunk chunks)))),
      Fetch (streaming_request e msgs mdl temp) #
        map OnChunk (calls (snd (read_stream parse onChunk chunks))) @ [Cancel])"
  using assms
  by (simp add: sendStreamingChatRequest_def Let_def split: prod.splits option.splits)

lemma streaming_resolved:
  assumes "sendStreamingChatRequest e parse msgs onChunk mdl temp = (Inr result, events)"
  shows "\<exists>r chunks. API_KEY e \<noteq> [] \<and> fetch e (streaming_request e msgs mdl temp) = Inr r \<and>
           ok r \<and> body r = Some chunks"
  using assms
  by (auto simp: sendStreamingChatRequest_def Let_def split: if_splits sum.splits option.splits)

lemma flush_unterminated_frame:
  assumes "LF \<notin> set (buffer st)"
    and "trim (buffer st) = ascii ''data: '' @ payload"
    and "payload \<noteq> ascii ''[DONE]''"
    and "parse payload = Some j"
    and "delta_content j = Inr (Some (JStr s))"
    and "s \<noteq> []"
  shows "\<exists>ft. flush parse onChunk st = st\<lparr>buffer := [], fullText := ft, calls := calls st @ [JStr s]\<rparr> \<and>
              (onChunk (calls st) (JStr s) = Inr () \<longrightarrow> ft = fullText st @ s)"
proof -
  have "flush parse onChunk st = processLines parse onChunk (st\<lparr>buffer := buffer st @ LF # []\<rparr>)"
    using assms(2) by (simp add: flush_def)
  also have "\<dots> = processLines parse onChunk (tryFrame parse onChunk (st\<lparr>buffer := []\<rparr>) payload)"
    using assms(2,3) by (simp add: processLines_line [OF assms(1)])
  also have "\<dots> = tryFrame parse onChunk (st\<lparr>buffer := []\<rparr>) payload"
    by (simp add: processLines_no_line)
  finally have f: "flush parse onChunk st = tryFrame parse onChunk (st\<lparr>buffer := []\<rparr>) payload" .
  show ?thesis
  proof (cases "onChunk (calls st) (JStr s)")
    case (Inl err)
    then have "tryFrame parse onChunk (st\<lparr>buffer := []\<rparr>) payload =
        st\<lparr>buffer := [], fullText := fullText st, calls := calls st @ [JStr s]\<rparr>"
      using assms(4-6) by (simp add: tryFrame_def Let_def)
    with f Inl show ?thesis by (intro exI [of _ "fullText st"]) simp
  next
    case (Inr u)
    then have "tryFrame parse onChunk (st\<lparr>buffer := []\<rparr>) payload =
        st\<lparr>buffer := [], fullText := fullText st @ s, calls := calls st @ [JStr s]\<rparr>"
      using assms(4-6) by (simp add: tryFrame_def Let_def)
    with f show ?thesis by (intro exI [of _ "fullText st @ s"]) simp
  qed
qed

section \<open>Facts about trimming, splitting and the suggestions\<close>

lemma dropWhile_all: "list_all P xs \<Longrightarrow> dropWhile P xs = []"
  by (induction xs) simp_all

lemma dropWhile_self: "xs \<noteq> [] \<Longrightarrow> \<not> P (hd xs) \<Longrightarrow> dropWhile P xs = xs"
  by (cases xs) simp_all

lemma trim_Nil [simp]: "trim [] = []"
  by (simp add: trim_def)

lemma trim_blank:
  assumes "list_all isWhiteSpace s"
  shows "trim s = []"
proof -
  have "trim s = rev (dropWhile isWhiteSpace (rev (dropWhile isWhiteSpace s)))"
    by (rule trim_def)
  also have "dropWhile isWhiteSpace s = []"
    using assms by (rule dropWhile_all)
  finally show ?thesis by simp
qed

lemma set_trim: "set (trim s) \<subseteq> set s"
proof -
  have "set (trim s) \<subseteq> set (dropWhile isWhiteSpace s)"
    unfolding trim_def using set_dropWhileD by fastforce
  also have "\<dots> \<subseteq> set s"
    using set_dropWhileD by fastforce
  finally show ?thesis .
qed

lemma trim_ends:
  assumes "trim s \<noteq> []"
  shows "\<not> isWhiteSpace (hd (trim s)) \<and> \<not> isWhiteSpace (last (trim s))"
proof -
  define a where "a = dropWhile isWhiteSpace s"
  define b where "b = dropWhile isWhiteSpace (rev a)"
  have t: "trim s = rev b" by (simp add: trim_def a_def b_def)
  with assms have bne: "b \<noteq> []" by simp
  then have hb: "\<not> isWhiteSpace (hd b)"
    unfolding b_def by (rule hd_dropWhile)
  have "rev a = takeWhile isWhiteSpace (rev a) @ b"
    by (simp add: b_def)
  then have "rev (rev a) = rev (takeWhile isWhiteSpace (rev a) @ b)"
    by simp
  then obtain u where u: "a = rev b @ u"
    by simp
  with bne have ane: "a \<noteq> []" and ha: "hd a = hd (rev b)"
    by (simp_all add: hd_append)
  from ane have "\<not> isWhiteSpace (hd a)"
    unfolding a_def by (rule hd_dropWhile)
  with ha hb bne t show ?thesis
    by (simp add: last_rev)
qed

lemma trim_idem: "trim (trim s) = trim s"
proof (cases "trim s = []")
  case True
  have "trim (trim s) = trim []" by (simp only: True)
  also have "\<dots> = []" by simp
  finally show ?thesis by (simp only: True)
next
  case False
  from trim_ends [OF False] have h: "\<not> isWhiteSpace (hd (trim s))"
    and l: "\<not> isWhiteSpace (last (trim s))" by blast+
  have 1: "dropWhile isWhiteSpace (trim s) = trim s"
    using False h by (rule dropWhile_self [where P = isWhiteSpace])
  have "rev (trim s) \<noteq> []" "hd (rev (trim s)) = last (trim s)"
    using False by (simp_all only: rev_is_Nil_conv hd_rev not_False_eq_True)
  with l have 2: "dropWhile isWhiteSpace (rev (trim s)) = rev (trim s)"
    by (simp add: dropWhile_self [where P = isWhiteSpace])
  have "trim (trim s) = rev (dropWhile isWhiteSpace (rev (dropWhile isWhiteSpace (trim s))))"
    by (rule trim_def)
  also have "\<dots> = rev (dropWhile isWhiteSpace (rev (trim s)))"
    by (simp only: 1)
  also have "\<dots> = rev (rev (trim s))"
    by (simp only: 2)
  also have "\<dots> = trim s"
    by (rule rev_rev_ident)
  finally show ?thesis .
qed

lemma split_lines_Cons:
  "split_lines (c # s) =
     (if c = LF then [] # split_lines s else (c # hd (split_lines s)) # tl (split_lines s))"
  by (cases "split_lines s") simp_all

lemma split_lines_pieces: "l \<in> set (split_lines s) \<Longrightarrow> LF \<notin> set l \<and> set l \<subseteq> set s"
proof (induction s arbitrary: l)
  case Nil
  then show ?case by simp
next
  case (Cons c s)
  obtain p ps where sp: "split_lines s = p # ps"
    by (cases "split_lines s") simp_all
  have ih_p: "LF \<notin> set p \<and> set p \<subseteq> set s"
    using Cons.IH [of p] sp by simp
  have ih_ps: "\<And>q. q \<in> set ps \<Longrightarrow> LF \<notin> set q \<and> set q \<subseteq> set s"
    using Cons.IH sp by simp
  show ?case
  proof (cases "c = LF")
    case True
    then have "split_lines (c # s) = [] # p # ps"
      using sp by simp
    with Cons.prems have "l = [] \<or> l = p \<or> l \<in> set ps" by simp
    with ih_p ih_ps show ?thesis by fastforce
  next
    case False
    then have "split_lines (c # s) = (c # p) # ps"
      using sp by simp
    with Cons.prems have "l = c # p \<or> l \<in> set ps" by simp
    with ih_p ih_ps False show ?thesis by fastforce
  qed
qed

lemma suggestions_of_lines:
  "length (suggestions_of s) \<le> 5 \<and>
   (\<forall>l \<in> set (suggestions_of s). l \<noteq> [] \<and> trim l = l \<and> LF \<notin> set l)"
proof -
  have "\<forall>l \<in> set (suggestions_of s). l \<noteq> [] \<and> trim l = l \<and> LF \<notin> set l"
  proof
    fix l assume "l \<in> set (suggestions_of s)"
    then have "l \<in> set (filter (\<lambda>l. l \<noteq> []) (map trim (split_lines s)))"
      unfolding suggestions_of_def by (rule in_set_takeD)
    then obtain p where p: "p \<in> set (split_lines s)" and l: "l = trim p" and ne: "l \<noteq> []"
      by auto
    have "LF \<notin> set p" using split_lines_pieces [OF p] by blast
    with set_trim [of p] have "LF \<notin> set (trim p)" by blast
    moreover have "trim (trim p) = trim p" by (rule trim_idem)
    ultimately show "l \<noteq> [] \<and> trim l = l \<and> LF \<notin> set l" using l ne by blast
  qed
  moreover have "length (suggestions_of s) \<le> 5"
    by (simp add: suggestions_of_def)
  ultimately show ?thesis by blast
qed

lemma suggestions_of_blank:
  assumes "list_all isWhiteSpace s"
  shows "suggestions_of s = []"
proof -
  have "\<forall>p \<in> set (split_lines s). trim p = []"
  proof
    fix p assume "p \<in> set (split_lines s)"
    then have "set p \<subseteq> set s" using split_lines_pieces by blast
    with assms have "list_all isWhiteSpace p" unfolding list_all_iff by blast
    then show "trim p = []" by (rule trim_blank)
  qed
  then have "filter (\<lambda>l. l \<noteq> []) (map trim (split_lines s)) = []"
    unfolding filter_empty_conv by simp
  then show ?thesis by (simp only: suggestions_of_def take.simps)
qed

lemma placeholder_line: "placeholder \<noteq> [] \<and> trim placeholder = placeholder \<and> LF \<notin> set placeholder"
  by (simp add: placeholder_def trim_def isWhiteSpace_def LF_def)

lemma split_response_cases:
  "split_response r = (case r of JStr s \<Rightarrow> Inr (suggestions_of s) | _ \<Rightarrow> Inl TypeError)"
  by (cases r) (simp_all add: split_response_def suggestions_of_def)

lemma generateSuggestions_unfold:
  "generateSuggestions e t =
     ((case fst (sendChatRequest e (suggestion_messages t) (ascii ''openai/gpt-4o'') (ascii ''0.7'')) of
         Inl err \<Rightarrow> Inr [placeholder]
       | Inr r \<Rightarrow> (case split_response r of Inl err \<Rightarrow> Inr [placeholder] | Inr ls \<Rightarrow> Inr ls)),
      snd (sendChatRequest e (suggestion_messages t) (ascii ''openai/gpt-4o'') (ascii ''0.7'')))"
  by (cases "sendChatRequest e (suggestion_messages t) (ascii ''openai/gpt-4o'') (ascii ''0.7'')")
     (simp add: generateSuggestions_def split: sum.splits)

lemma generateSuggestions_resolved:
  assumes "fst (sendChatRequest e (suggestion_messages t) (ascii ''openai/gpt-4o'') (ascii ''0.7'')) = Inr (JStr s)"
  shows "fst (generateSuggestions e t) = Inr (suggestions_of s)"
  by (simp add: generateSuggestions_unfold assms split_response_cases)

lemma generateSuggestions_failed:
  assumes "\<forall>s. fst (sendChatRequest e (suggestion_messages t) (ascii ''openai/gpt-4o'') (ascii ''0.7'')) \<noteq> Inr (JStr s)"
  shows "fst (generateSuggestions e t) = Inr [placeholder]"
proof (cases "fst (sendChatRequest e (suggestion_messages t) (ascii ''openai/gpt-4o'') (ascii ''0.7''))")
  case (Inl err)
  then show ?thesis by (simp add: generateSuggestions_unfold)
next
  case (Inr r)
  with assms have "\<forall>s. r \<noteq> JStr s" by simp
  then have "split_response r = Inl TypeError"
    by (cases r) (simp_all add: split_response_def)
  with Inr show ?thesis by (simp add: generateSuggestions_unfold)
qed

lemma demo_reply:
  "fst (sendChatRequest (demo_env (\<lambda>req. Inr (chat_response reply))) (suggestion_messages (ascii ''graph''))
          (ascii ''openai/gpt-4o'') (ascii ''0.7'')) = Inr (if reply = [] then JStr [] else JStr reply)"
  by (simp add: sendChatRequest_def demo_env_def API_KEY_def chat_response_def ok_def
      message_content_def Let_def ascii_def)

text \<open>The unfoldings that run the reader, the decoder and the example call.\<close>

lemmas json_reader =
  json_parse_def skip_ws_def isJsonSpace_def literal_def number_def cons_string_def isDigit_def
  unescape_def hex_digit_def startsWith_def

lemmas decoder_run =
  processLines.simps tryFrame_def delta_content_def trim_def isWhiteSpace_def Let_def LF_def
  ascii_def

lemmas stream_run =
  stream_demo_def sendStreamingChatRequest_def demo_env_def streamed_def API_KEY_def ok_def
  read_stream_def flush_def returns_def throws_def delta_frame_def done_frame_def

lemmas chat_run =
  chat_demo_def stream_failure_demo_def sendChatRequest_def sendStreamingChatRequest_def
  demo_env_def API_KEY_def ok_def json_response_def api_failure_def streaming_failure_def
  error_text_def message_content_def decimal.simps Let_def ascii_def

section \<open>The claims\<close>

subsection \<open>C1: the returned text and the deltas given to the callback\<close>

text \<open>
  C1: for every well-formed streaming response the returned string is the concatenation,
  in invocation order, of the deltas passed to \<^verbatim>\<open>onChunk\<close>. The code breaks this
  when the callback throws. The \<^verbatim>\<open>try\<close> of \<^verbatim>\<open>processLines\<close>, whose \<^verbatim>\<open>catch\<close>
  is written to ignore invalid JSON, also holds the call of \<^verbatim>\<open>onChunk\<close>: the
  exception of the callback is swallowed there and \<^verbatim>\<open>fullText += content\<close> is
  skipped. On the well-formed response \<^verbatim>\<open>Hel\<close>, \<^verbatim>\<open>lo\<close>, sentinel, with a callback
  that throws, the callback is given both deltas, whose concatenation is \<^verbatim>\<open>Hello\<close>,
  and the call completes with the empty string.
\<close>

theorem throwing_callback_deltas_missing_from_returned_text:
  "fst (stream_demo throws hello_chunks) = Inr [] \<and>
   deltas (snd (stream_demo throws hello_chunks)) = [JStr (ascii ''Hel''), JStr (ascii ''lo'')] \<and>
   concat (map rendered (deltas (snd (stream_demo throws hello_chunks)))) = ascii ''Hello'' \<and>
   fst (stream_demo throws hello_chunks)
     \<noteq> Inr (concat (map rendered (deltas (snd (stream_demo throws hello_chunks)))))"
proof -
  have r: "fst (stream_demo throws hello_chunks) = Inr []"
    by (simp add: hello_chunks_def stream_run decoder_run json_reader)
  have d: "deltas (snd (stream_demo throws hello_chunks)) = [JStr (ascii ''Hel''), JStr (ascii ''lo'')]"
    by (simp add: hello_chunks_def stream_run decoder_run json_reader)
  have c: "concat (map rendered [JStr (ascii ''Hel''), JStr (ascii ''lo'')]) = ascii ''Hello''"
    by (simp add: ascii_def)
  have "ascii ''Hello'' \<noteq> []"
    by (simp add: ascii_def)
  with r d c show ?thesis by simp
qed

text \<open>
  What the code does keep: with a callback that returns whatever it has been given
  before and is given now, the string a completed call returns is the concatenation, in
  invocation order, of the deltas passed to the callback (each as \<^verbatim>\<open>+=\<close> renders it;
  a string delta is itself).
\<close>

theorem returned_text_is_concat_of_deltas:
  assumes "\<forall>h d. onChunk h d = Inr ()"
    and "sendStreamingChatRequest e parse msgs onChunk mdl temp = (Inr result, events)"
  shows "result = concat (map rendered (deltas events))"
proof -
  from streaming_resolved [OF assms(2)] obtain r chunks where
    "API_KEY e \<noteq> []" "fetch e (streaming_request e msgs mdl temp) = Inr r" "ok r"
    "body r = Some chunks"
    by blast
  from streaming_with_reader [OF this, of parse onChunk] assms(2)
  have "result = fullText (snd (read_stream parse onChunk chunks))"
    and "deltas events = calls (snd (read_stream parse onChunk chunks))"
    by (auto split: option.splits)
  then show ?thesis
    using rendered_invariant_read_stream [OF assms(1), of parse chunks] by simp
qed

text \<open>The scenario with a callback that returns: \<^verbatim>\<open>Hel\<close>, then \<^verbatim>\<open>lo\<close> and the
  sentinel; the callback is given \<^verbatim>\<open>Hel\<close> then \<^verbatim>\<open>lo\<close> and the call returns
  \<^verbatim>\<open>Hello\<close>.\<close>

theorem returned_text_hello_scenario:
  "(\<forall>h d. returns h d = Inr ()) \<and>
   fst (stream_demo returns hello_chunks) = Inr (ascii ''Hello'') \<and>
   deltas (snd (stream_demo returns hello_chunks)) = [JStr (ascii ''Hel''), JStr (ascii ''lo'')] \<and>
   ascii ''Hello'' = concat (map rendered (deltas (snd (stream_demo returns hello_chunks))))"
proof -
  have cb: "\<forall>h d. returns h d = Inr ()"
    by (simp add: returns_def)
  have r: "fst (stream_demo returns hello_chunks) = Inr (ascii ''Hello'')"
    by (simp add: hello_chunks_def stream_run decoder_run json_reader)
  have d: "deltas (snd (stream_demo returns hello_chunks)) = [JStr (ascii ''Hel''), JStr (ascii ''lo'')]"
    by (simp add: hello_chunks_def stream_run decoder_run json_reader)
  have "stream_demo returns hello_chunks = (Inr (ascii ''Hello''), snd (stream_demo returns hello_chunks))"
    using r by (simp add: prod_eq_iff)
  then have "ascii ''Hello'' = concat (map rendered (deltas (snd (stream_demo returns hello_chunks))))"
    unfolding stream_demo_def by (rule returned_text_is_concat_of_deltas [OF cb])
  with cb r d show ?thesis by blast
qed

subsection \<open>C2: the sentinel\<close>

text \<open>
  C2 says that nothing buffered after the sentinel is parsed or delivered. In the code
  the \<^verbatim>\<open>return\<close> on \<^verbatim>\<open>[DONE]\<close> leaves \<^verbatim>\<open>processLines\<close> only: the read loop goes
  on, and the next pass (after the next chunk, or the final one) drains what the sentinel
  left in the buffer. A frame after the sentinel is delivered, whether it came in the same
  chunk or in a later one.
\<close>

theorem frames_after_sentinel_still_delivered:
  "fst (stream_demo returns [Inr (done_frame @ [LF] @ delta_frame ''late'' @ [LF])]) = Inr (ascii ''late'') \<and>
   deltas (snd (stream_demo returns [Inr (done_frame @ [LF] @ delta_frame ''late'' @ [LF])])) = [JStr (ascii ''late'')] \<and>
   fst (stream_demo returns [Inr (done_frame @ [LF]), Inr (delta_frame ''late'' @ [LF])]) = Inr (ascii ''late'') \<and>
   deltas (snd (stream_demo returns [Inr (done_frame @ [LF]), Inr (delta_frame ''late'' @ [LF])])) = [JStr (ascii ''late'')]"
  by (simp add: stream_run decoder_run json_reader)

subsection \<open>C3: a response that is not ok\<close>

text \<open>
  C3 says that both functions fail with the message of the error body when it parses and
  fall back to the status line when it does not. \<^verbatim>\<open>sendStreamingChatRequest\<close> throws
  the error built from the body inside the \<^verbatim>\<open>try\<close> whose \<^verbatim>\<open>catch\<close> replaces
  whatever was thrown by the status line, so the message of the body never reaches the
  caller; \<^verbatim>\<open>sendChatRequest\<close> has no such \<^verbatim>\<open>try\<close>, so a body that does not parse
  rejects the call with the parse failure. On a 401 with the body of the scenario, and on
  a 502 with an HTML body:
\<close>

theorem error_body_message_lost_when_streaming:
  \<open>fst (stream_failure_demo (json_response 401 ''Unauthorized'' ''{"error":{"message":"invalid key"}}''))
     = Inl (Error (request_failed @ ascii ''401 Unauthorized'')) \<and>
   fst (chat_demo (json_response 401 ''Unauthorized'' ''{"error":{"message":"invalid key"}}''))
     = Inl (Error (request_failed @ ascii ''invalid key'')) \<and>
   fst (chat_demo (json_response 502 ''Bad Gateway'' ''<html>Bad Gateway</html>'')) = Inl SyntaxError \<and>
   fst (stream_failure_demo (json_response 502 ''Bad Gateway'' ''<html>Bad Gateway</html>''))
     = Inl (Error (request_failed @ ascii ''502 Bad Gateway''))\<close>
  by (simp add: chat_run json_reader)

subsection \<open>C4: malformed frames\<close>

text \<open>
  C4: a drained \<^verbatim>\<open>data:\<close> line whose payload does not parse, or parses to a value that
  lacks the expected shape, changes nothing but the buffer: the pass goes on with the rest
  of the buffer from the same accumulated text and the same callback history, so no
  callback is invoked for the line, no error is raised, and the frames before and after it
  are handled as if the line were not there.
\<close>

theorem malformed_frame_skipped:
  assumes "LF \<notin> set l"
    and "trim l = ascii ''data: '' @ payload"
    and "payload \<noteq> ascii ''[DONE]''"
    and "parse payload = None \<or> (\<exists>j. parse payload = Some j \<and> lacks_shape j)"
  shows "processLines parse onChunk (st\<lparr>buffer := l @ LF # rest\<rparr>) =
         processLines parse onChunk (st\<lparr>buffer := rest\<rparr>)"
proof -
  have "tryFrame parse onChunk (st\<lparr>buffer := rest\<rparr>) payload = st\<lparr>buffer := rest\<rparr>"
    using assms(4) tryFrame_unparsed tryFrame_lacks_shape by blast
  then show ?thesis
    using assms(2,3) by (simp add: processLines_line [OF assms(1)])
qed

text \<open>A payload cut short, a frame without \<^verbatim>\<open>content\<close>, and a frame without
  \<^verbatim>\<open>choices\<close> between two well-formed frames, with both callbacks.\<close>

theorem malformed_frame_witness:
  \<open>json_parse (ascii ''{"choices":[{"delta":'') = None \<and>
   processLines json_parse returns
       (fresh (ascii ''data: {"choices":[{"delta":'' @ LF # delta_frame ''b'' @ [LF]))
     = \<lparr>buffer = [], fullText = ascii ''b'', calls = [JStr (ascii ''b'')]\<rparr> \<and>
   (\<exists>j. json_parse (ascii ''{"choices":[{"delta":{}}]}'') = Some j \<and> lacks_shape j) \<and>
   processLines json_parse returns
       (fresh (ascii ''data: {"choices":[{"delta":{}}]}'' @ LF # delta_frame ''b'' @ [LF]))
     = \<lparr>buffer = [], fullText = ascii ''b'', calls = [JStr (ascii ''b'')]\<rparr> \<and>
   processLines json_parse throws
       (fresh (delta_frame ''a'' @ [LF] @ ascii ''data: {"id":7}'' @ [LF] @ delta_frame ''b'' @ [LF]))
     = \<lparr>buffer = [], fullText = [], calls = [JStr (ascii ''a''), JStr (ascii ''b'')]\<rparr> \<and>
   processLines json_parse returns
       (fresh (delta_frame ''a'' @ [LF] @ ascii ''data: {"id":7}'' @ [LF] @ delta_frame ''b'' @ [LF]))
     = \<lparr>buffer = [], fullText = ascii ''ab'', calls = [JStr (ascii ''a''), JStr (ascii ''b'')]\<rparr>\<close>
proof -
  let ?rest = "delta_frame ''b'' @ [LF]"
  let ?after = "\<lparr>buffer = [], fullText = ascii ''b'', calls = [JStr (ascii ''b'')]\<rparr>"
  have rest: "processLines json_parse returns (fresh [] \<lparr>buffer := ?rest\<rparr>) = ?after"
    by (simp add: fresh_def returns_def delta_frame_def decoder_run json_reader)
  have p1: \<open>json_parse (ascii ''{"choices":[{"delta":'') = None\<close>
    by (simp add: ascii_def json_reader)
  have \<open>processLines json_parse returns
          (fresh [] \<lparr>buffer := ascii ''data: {"choices":[{"delta":'' @ LF # ?rest\<rparr>)
        = processLines json_parse returns (fresh [] \<lparr>buffer := ?rest\<rparr>)\<close>
  proof (rule malformed_frame_skipped)
    show \<open>LF \<notin> set (ascii ''data: {"choices":[{"delta":'')\<close>
      by (simp add: ascii_def LF_def)
    show \<open>trim (ascii ''data: {"choices":[{"delta":'') = ascii ''data: '' @ ascii ''{"choices":[{"delta":''\<close>
      by (simp add: ascii_def trim_def isWhiteSpace_def)
    show \<open>ascii ''{"choices":[{"delta":'' \<noteq> ascii ''[DONE]''\<close>
      by (simp add: ascii_def)
    show \<open>json_parse (ascii ''{"choices":[{"delta":'') = None \<or>
          (\<exists>j. json_parse (ascii ''{"choices":[{"delta":'') = Some j \<and> lacks_shape j)\<close>
      using p1 by blast
  qed
  with rest have a: \<open>processLines json_parse returns
       (fresh (ascii ''data: {"choices":[{"delta":'' @ LF # ?rest)) = ?after\<close>
    by (simp add: fresh_def)
  have p2: \<open>\<exists>j. json_parse (ascii ''{"choices":[{"delta":{}}]}'') = Some j \<and> lacks_shape j\<close>
    by (simp add: ascii_def json_reader lacks_shape_def)
  have \<open>processLines json_parse returns
          (fresh [] \<lparr>buffer := ascii ''data: {"choices":[{"delta":{}}]}'' @ LF # ?rest\<rparr>)
        = processLines json_parse returns (fresh [] \<lparr>buffer := ?rest\<rparr>)\<close>
  proof (rule malformed_frame_skipped)
    show \<open>LF \<notin> set (ascii ''data: {"choices":[{"delta":{}}]}'')\<close>
      by (simp add: ascii_def LF_def)
    show \<open>trim (ascii ''data: {"choices":[{"delta":{}}]}'') = ascii ''data: '' @ ascii ''{"choices":[{"delta":{}}]}''\<close>
      by (simp add: ascii_def trim_def isWhiteSpace_def)
    show \<open>ascii ''{"choices":[{"delta":{}}]}'' \<noteq> ascii ''[DONE]''\<close>
      by (simp add: ascii_def)
    show \<open>json_parse (ascii ''{"choices":[{"delta":{}}]}'') = None \<or>
          (\<exists>j. json_parse (ascii ''{"choices":[{"delta":{}}]}'') = Some j \<and> lacks_shape j)\<close>
      using p2 by blast
  qed
  with rest have b: \<open>processLines json_parse returns
       (fresh (ascii ''data: {"choices":[{"delta":{}}]}'' @ LF # ?rest)) = ?after\<close>
    by (simp add: fresh_def)
  have c: \<open>processLines json_parse throws
       (fresh (delta_frame ''a'' @ [LF] @ ascii ''data: {"id":7}'' @ [LF] @ delta_frame ''b'' @ [LF]))
     = \<lparr>buffer = [], fullText = [], calls = [JStr (ascii ''a''), JStr (ascii ''b'')]\<rparr>\<close>
    by (simp add: fresh_def throws_def delta_frame_def decoder_run json_reader)
  have d: \<open>processLines json_parse returns
       (fresh (delta_frame ''a'' @ [LF] @ ascii ''data: {"id":7}'' @ [LF] @ delta_frame ''b'' @ [LF]))
     = \<lparr>buffer = [], fullText = ascii ''ab'', calls = [JStr (ascii ''a''), JStr (ascii ''b'')]\<rparr>\<close>
    by (simp add: fresh_def returns_def delta_frame_def decoder_run json_reader)
  from p1 a p2 b c d show ?thesis by blast
qed

subsection \<open>C5: the final frame without a line feed\<close>

text \<open>
  C5: when the reads end with an unterminated frame in the buffer, the call appends a
  line feed and runs one more pass, so the frame is parsed, delivered to the callback and
  included in the returned text. The final pass goes through the same \<^verbatim>\<open>try\<close> as
  every other frame, so the defect of C1 shows here too: with a callback that throws, the
  unterminated frame is parsed and the callback is given its delta \<^verbatim>\<open>Hi\<close>, but the
  exception is swallowed before the delta is appended, and the call completes with the
  empty string.
\<close>

theorem unterminated_frame_lost_when_callback_throws:
  "deltas (snd (stream_demo throws [Inr (delta_frame ''Hi'')])) = [JStr (ascii ''Hi'')] \<and>
   fst (stream_demo throws [Inr (delta_frame ''Hi'')]) = Inr [] \<and>
   fst (stream_demo throws [Inr (delta_frame ''Hi'')]) \<noteq> Inr (ascii ''Hi'')"
  by (simp add: stream_run decoder_run json_reader)

text \<open>
  What the code does keep: when the reads end with the buffer holding one unterminated
  frame that bears a non-empty string delta, the final pass parses the frame and passes
  its delta to the callback as the last invocation; the call completes, and if that
  invocation returns the returned text is the text accumulated before followed by the
  delta.
\<close>

theorem unterminated_final_frame_delivered:
  assumes "API_KEY e \<noteq> []"
    and "fetch e (streaming_request e msgs mdl temp) = Inr r"
    and "ok r"
    and "body r = Some chunks"
    and "read_loop parse onChunk \<lparr>buffer = [], fullText = [], calls = []\<rparr> chunks = (None, st)"
    and "LF \<notin> set (buffer st)"
    and "trim (buffer st) = ascii ''data: '' @ payload"
    and "payload \<noteq> ascii ''[DONE]''"
    and "parse payload = Some j"
    and "delta_content j = Inr (Some (JStr s))"
    and "s \<noteq> []"
  shows "\<exists>result. sendStreamingChatRequest e parse msgs onChunk mdl temp =
           (Inr result,
            Fetch (streaming_request e msgs mdl temp) # map OnChunk (calls st @ [JStr s]) @ [Cancel]) \<and>
           (onChunk (calls st) (JStr s) = Inr () \<longrightarrow> result = fullText st @ s)"
proof -
  from flush_unterminated_frame [where parse = parse and onChunk = onChunk, OF assms(6-11)]
  obtain ft where
    f: "flush parse onChunk st = st\<lparr>buffer := [], fullText := ft, calls := calls st @ [JStr s]\<rparr>"
    and ft: "onChunk (calls st) (JStr s) = Inr () \<longrightarrow> ft = fullText st @ s"
    by blast
  have "read_stream parse onChunk chunks = (None, flush parse onChunk st)"
    using assms(5) by (simp add: read_stream_def)
  with f have "sendStreamingChatRequest e parse msgs onChunk mdl temp =
           (Inr ft,
            Fetch (streaming_request e msgs mdl temp) # map OnChunk (calls st @ [JStr s]) @ [Cancel])"
    by (simp add: streaming_with_reader [OF assms(1-4)])
  with ft show ?thesis by blast
qed

text \<open>A stream whose second frame is split over two chunks and never terminated.\<close>

theorem unterminated_final_frame_scenario:
  \<open>read_loop json_parse returns \<lparr>buffer = [], fullText = [], calls = []\<rparr>
       [Inr (delta_frame ''Hel'' @ [LF] @ ascii ''data: {"choices":[{"del''),
        Inr (ascii ''ta":{"content":"lo"}}]}'')]
     = (None, \<lparr>buffer = delta_frame ''lo'', fullText = ascii ''Hel'', calls = [JStr (ascii ''Hel'')]\<rparr>) \<and>
   fst (stream_demo returns
       [Inr (delta_frame ''Hel'' @ [LF] @ ascii ''data: {"choices":[{"del''),
        Inr (ascii ''ta":{"content":"lo"}}]}'')]) = Inr (ascii ''Hello'') \<and>
   deltas (snd (stream_demo returns
       [Inr (delta_frame ''Hel'' @ [LF] @ ascii ''data: {"choices":[{"del''),
        Inr (ascii ''ta":{"content":"lo"}}]}'')])) = [JStr (ascii ''Hel''), JStr (ascii ''lo'')]\<close>
proof -
  let ?chunks = \<open>[Inr (delta_frame ''Hel'' @ [LF] @ ascii ''data: {"choices":[{"del''),
        Inr (ascii ''ta":{"content":"lo"}}]}'')]\<close>
  let ?e = "demo_env (\<lambda>req. Inr (streamed ?chunks))"
  let ?st = "\<lparr>buffer = delta_frame ''lo'', fullText = ascii ''Hel'', calls = [JStr (ascii ''Hel'')]\<rparr>"
  let ?j = "JObj [(ascii ''choices'', JArr [JObj [(ascii ''delta'', JObj [(ascii ''content'', JStr (ascii ''lo''))])]])]"
  have k: "API_KEY ?e \<noteq> []"
    by (simp add: API_KEY_def demo_env_def ascii_def)
  have f: "fetch ?e (streaming_request ?e [\<lparr>role = User, content = ascii ''hi''\<rparr>]
             (ascii ''google/gemini-2.0-flash-lite-001'') (ascii ''0.7'')) = Inr (streamed ?chunks)"
    by (simp add: demo_env_def)
  have o: "ok (streamed ?chunks)"
    by (simp add: ok_def streamed_def)
  have b: "body (streamed ?chunks) = Some ?chunks"
    by (simp add: streamed_def)
  have l: "read_loop json_parse returns \<lparr>buffer = [], fullText = [], calls = []\<rparr> ?chunks = (None, ?st)"
    by (simp add: returns_def delta_frame_def decoder_run json_reader)
  have n: "LF \<notin> set (buffer ?st)"
    by (simp add: delta_frame_def ascii_def LF_def)
  have t: \<open>trim (buffer ?st) = ascii ''data: '' @ ascii ''{"choices":[{"delta":{"content":"lo"}}]}''\<close>
    by (simp add: delta_frame_def ascii_def trim_def isWhiteSpace_def)
  have nd: \<open>ascii ''{"choices":[{"delta":{"content":"lo"}}]}'' \<noteq> ascii ''[DONE]''\<close>
    by (simp add: ascii_def)
  have p: \<open>json_parse (ascii ''{"choices":[{"delta":{"content":"lo"}}]}'') = Some ?j\<close>
    by (simp add: ascii_def json_reader)
  have dc: "delta_content ?j = Inr (Some (JStr (ascii ''lo'')))"
    by (simp add: delta_content_def ascii_def)
  have ne: "ascii ''lo'' \<noteq> []"
    by (simp add: ascii_def)
  have cb: "returns (calls ?st) (JStr (ascii ''lo'')) = Inr ()"
    by (simp add: returns_def)
  from unterminated_final_frame_delivered [where onChunk = returns, OF k f o b l n t nd p dc ne]
  obtain result where
    "sendStreamingChatRequest ?e json_parse [\<lparr>role = User, content = ascii ''hi''\<rparr>] returns
       (ascii ''google/gemini-2.0-flash-lite-001'') (ascii ''0.7'') =
      (Inr result,
       Fetch (streaming_request ?e [\<lparr>role = User, content = ascii ''hi''\<rparr>]
             (ascii ''google/gemini-2.0-flash-lite-001'') (ascii ''0.7'')) #
         map OnChunk (calls ?st @ [JStr (ascii ''lo'')]) @ [Cancel])"
    and "returns (calls ?st) (JStr (ascii ''lo'')) = Inr () \<longrightarrow> result = fullText ?st @ ascii ''lo''"
    by blast
  with cb have "stream_demo returns ?chunks =
      (Inr (fullText ?st @ ascii ''lo''),
       Fetch (streaming_request ?e [\<lparr>role = User, content = ascii ''hi''\<rparr>]
             (ascii ''google/gemini-2.0-flash-lite-001'') (ascii ''0.7'')) #
         map OnChunk (calls ?st @ [JStr (ascii ''lo'')]) @ [Cancel])"
    unfolding stream_demo_def by simp
  then have "fst (stream_demo returns ?chunks) = Inr (ascii ''Hello'')"
    and "deltas (snd (stream_demo returns ?chunks)) = [JStr (ascii ''Hel''), JStr (ascii ''lo'')]"
    by (simp_all add: ascii_def)
  with l show ?thesis by blast
qed

subsection \<open>C6: the buffer after a pass\<close>

text \<open>
  C6, as stated: after every pass of \<^verbatim>\<open>processLines\<close> the buffer holds no line feed.
  A pass that meets the sentinel returns at once and leaves the lines after it, line
  feeds included, in the buffer.
\<close>

theorem sentinel_leaves_lines_counterexample:
  "LF \<in> set (buffer (processLines json_parse returns (fresh (done_frame @ [LF] @ delta_frame ''late'' @ [LF]))))"
  by (simp add: fresh_def returns_def delta_frame_def done_frame_def decoder_run json_reader)

text \<open>
  C6, amended: after a pass over a buffer none of whose complete lines is the sentinel
  frame, the buffer holds no line feed.
\<close>

theorem drained_unless_sentinel:
  "\<not> sentinel_ahead (buffer st) \<Longrightarrow> LF \<notin> set (buffer (processLines parse onChunk st))"
proof (induction parse onChunk st rule: processLines.induct)
  case (1 parse onChunk st)
  show ?case
  proof (cases "indexOf (buffer st) LF")
    case None
    then have "LF \<notin> set (buffer st)" by (simp add: indexOf_None)
    then show ?thesis by (simp add: processLines_no_line)
  next
    case (Some i)
    define l where "l = take i (buffer st)"
    define rest where "rest = drop (Suc i) (buffer st)"
    have buf: "buffer st = l @ LF # rest" and nl: "LF \<notin> set l"
      using indexOf_split [OF Some] by (simp_all add: l_def rest_def)
    have ns: "trim l \<noteq> ascii ''data: [DONE]''" and nr: "\<not> sentinel_ahead rest"
      using "1.prems" by (simp_all add: sentinel_ahead_def buf complete_lines_line [OF nl])
    have st: "st = st\<lparr>buffer := l @ LF # rest\<rparr>" using buf by simp
    have step: "processLines parse onChunk st =
       (if trim l = [] \<or> \<not> startsWith (trim l) (ascii ''data: '') then
          processLines parse onChunk (st\<lparr>buffer := rest\<rparr>)
        else if drop 6 (trim l) = ascii ''[DONE]'' then st\<lparr>buffer := rest\<rparr>
        else processLines parse onChunk (tryFrame parse onChunk (st\<lparr>buffer := rest\<rparr>) (drop 6 (trim l))))"
      by (subst st) (rule processLines_line [OF nl])
    show ?thesis
    proof (cases "trim l = [] \<or> \<not> startsWith (trim l) (ascii ''data: '')")
      case True
      have "LF \<notin> set (buffer (processLines parse onChunk (st\<lparr>buffer := drop (i + 1) (buffer st)\<rparr>)))"
        using "1.IH"(1) [OF Some refl refl] True nr by (simp add: l_def rest_def)
      with True show ?thesis by (simp add: step rest_def)
    next
      case False
      with ns have nd: "drop 6 (trim l) \<noteq> ascii ''[DONE]''"
        using sentinel_frame_iff by blast
      have "LF \<notin> set (buffer (processLines parse onChunk
              (tryFrame parse onChunk (st\<lparr>buffer := drop (i + 1) (buffer st)\<rparr>) (drop 6 (trim (take i (buffer st)))))))"
        using "1.IH"(2) [OF Some refl refl _ refl] False nd nr by (simp add: l_def rest_def)
      with False nd show ?thesis by (simp add: step rest_def l_def)
    qed
  qed
qed

theorem drained_witness:
  "\<not> sentinel_ahead (ascii ''junk'' @ [LF] @ delta_frame ''a'' @ [LF] @ ascii ''data: {par'') \<and>
   processLines json_parse returns (fresh (ascii ''junk'' @ [LF] @ delta_frame ''a'' @ [LF] @ ascii ''data: {par''))
     = \<lparr>buffer = ascii ''data: {par'', fullText = ascii ''a'', calls = [JStr (ascii ''a'')]\<rparr> \<and>
   LF \<notin> set (buffer (processLines json_parse returns (fresh (ascii ''junk'' @ [LF] @ delta_frame ''a'' @ [LF] @ ascii ''data: {par''))))"
proof -
  let ?buf = "ascii ''junk'' @ [LF] @ delta_frame ''a'' @ [LF] @ ascii ''data: {par''"
  have a: "\<not> sentinel_ahead ?buf"
    by (simp add: sentinel_ahead_def complete_lines_def delta_frame_def ascii_def LF_def trim_def isWhiteSpace_def)
  then have "\<not> sentinel_ahead (buffer (fresh ?buf))"
    by (simp add: fresh_def)
  from drained_unless_sentinel [OF this, of json_parse returns]
  have b: "LF \<notin> set (buffer (processLines json_parse returns (fresh ?buf)))" .
  have c: "processLines json_parse returns (fresh ?buf)
     = \<lparr>buffer = ascii ''data: {par'', fullText = ascii ''a'', calls = [JStr (ascii ''a'')]\<rparr>"
    by (simp add: fresh_def returns_def delta_frame_def decoder_run json_reader)
  from a b c show ?thesis by blast
qed

subsection \<open>C7: no credential\<close>

text \<open>
  C7: without an API key both \<^verbatim>\<open>sendChatRequest\<close> and
  \<^verbatim>\<open>sendStreamingChatRequest\<close> fail with the configuration error, and the call has no
  event: no request is sent.
\<close>

theorem missing_key_no_request:
  assumes "API_KEY e = []"
  shows "sendChatRequest e msgs mdl temp = (Inl (Error missing_key_message), []) \<and>
         sendStreamingChatRequest e parse msgs onChunk mdl temp = (Inl (Error missing_key_message), [])"
  using assms by (simp add: sendChatRequest_def sendStreamingChatRequest_def)

theorem missing_key_witness:
  "API_KEY (no_key_env (\<lambda>req. Inr (streamed hello_chunks))) = [] \<and>
   sendChatRequest (no_key_env (\<lambda>req. Inr (streamed hello_chunks))) [] (ascii ''openai/gpt-4o'') (ascii ''0.7'')
     = (Inl (Error missing_key_message), []) \<and>
   sendStreamingChatRequest (no_key_env (\<lambda>req. Inr (streamed hello_chunks))) json_parse [] returns
       (ascii ''openai/gpt-4o'') (ascii ''0.7'')
     = (Inl (Error missing_key_message), [])"
proof -
  have k: "API_KEY (no_key_env (\<lambda>req. Inr (streamed hello_chunks))) = []"
    by (simp add: API_KEY_def no_key_env_def)
  from k missing_key_no_request [OF k] show ?thesis by blast
qed

subsection \<open>C8: generateSuggestions\<close>

text \<open>
  C8: when \<^verbatim>\<open>sendChatRequest\<close> resolves with a string, \<^verbatim>\<open>generateSuggestions\<close>
  returns its lines, trimmed, without the empty ones, at most five; in every other case
  (the request failed, or resolved with something that cannot be split) it returns the
  list holding the placeholder alone, and without a key it does so without any request.
  It always returns a list: at most five lines, none empty, each trimmed and free of line
  feeds.
\<close>

theorem generateSuggestions_result:
  "(\<forall>s. fst (sendChatRequest e (suggestion_messages t) (ascii ''openai/gpt-4o'') (ascii ''0.7'')) = Inr (JStr s)
        \<longrightarrow> fst (generateSuggestions e t) = Inr (suggestions_of s)) \<and>
   ((\<forall>s. fst (sendChatRequest e (suggestion_messages t) (ascii ''openai/gpt-4o'') (ascii ''0.7'')) \<noteq> Inr (JStr s))
        \<longrightarrow> fst (generateSuggestions e t) = Inr [placeholder]) \<and>
   (API_KEY e = [] \<longrightarrow> generateSuggestions e t = (Inr [placeholder], [])) \<and>
   (\<exists>ls. fst (generateSuggestions e t) = Inr ls \<and> length ls \<le> 5 \<and>
         (\<forall>l \<in> set ls. l \<noteq> [] \<and> trim l = l \<and> LF \<notin> set l))"
proof -
  let ?r = "fst (sendChatRequest e (suggestion_messages t) (ascii ''openai/gpt-4o'') (ascii ''0.7''))"
  have a: "\<forall>s. ?r = Inr (JStr s) \<longrightarrow> fst (generateSuggestions e t) = Inr (suggestions_of s)"
    using generateSuggestions_resolved by blast
  have b: "(\<forall>s. ?r \<noteq> Inr (JStr s)) \<longrightarrow> fst (generateSuggestions e t) = Inr [placeholder]"
    using generateSuggestions_failed by blast
  have c: "API_KEY e = [] \<longrightarrow> generateSuggestions e t = (Inr [placeholder], [])"
    by (simp add: generateSuggestions_unfold sendChatRequest_def)
  have d: "\<exists>ls. fst (generateSuggestions e t) = Inr ls \<and> length ls \<le> 5 \<and>
         (\<forall>l \<in> set ls. l \<noteq> [] \<and> trim l = l \<and> LF \<notin> set l)"
  proof (cases "\<exists>s. ?r = Inr (JStr s)")
    case True
    then obtain s where "?r = Inr (JStr s)" by blast
    with a have "fst (generateSuggestions e t) = Inr (suggestions_of s)" by blast
    with suggestions_of_lines [of s] show ?thesis by blast
  next
    case False
    with b have "fst (generateSuggestions e t) = Inr [placeholder]" by blast
    with placeholder_line show ?thesis by simp
  qed
  from a b c d show ?thesis by blast
qed

text \<open>A reply of seven lines, two of them blank or padded; no key; a network failure.\<close>

theorem generateSuggestions_witness:
  "fst (suggest_demo (ascii ''  alpha '' @ [LF] @ [LF] @ ascii ''beta'' @ [LF] @ ascii ''c'' @ [LF] @
         ascii ''d'' @ [LF] @ ascii ''e'' @ [LF] @ ascii ''f''))
     = Inr [ascii ''alpha'', ascii ''beta'', ascii ''c'', ascii ''d'', ascii ''e''] \<and>
   generateSuggestions (no_key_env (\<lambda>req. Inr (chat_response (ascii ''alpha'')))) (ascii ''graph'')
     = (Inr [placeholder], []) \<and>
   fst (generateSuggestions (demo_env (\<lambda>req. Inl NetworkError)) (ascii ''graph'')) = Inr [placeholder]"
proof -
  let ?reply = "ascii ''  alpha '' @ [LF] @ [LF] @ ascii ''beta'' @ [LF] @ ascii ''c'' @ [LF] @
         ascii ''d'' @ [LF] @ ascii ''e'' @ [LF] @ ascii ''f''"
  let ?e = "demo_env (\<lambda>req. Inr (chat_response ?reply))"
  have "?reply \<noteq> []" by (simp add: ascii_def)
  then have "fst (sendChatRequest ?e (suggestion_messages (ascii ''graph'')) (ascii ''openai/gpt-4o'') (ascii ''0.7''))
      = Inr (JStr ?reply)"
    by (simp add: demo_reply)
  with generateSuggestions_result [of ?e "ascii ''graph''"]
  have "fst (generateSuggestions ?e (ascii ''graph'')) = Inr (suggestions_of ?reply)"
    by blast
  moreover have "suggestions_of ?reply = [ascii ''alpha'', ascii ''beta'', ascii ''c'', ascii ''d'', ascii ''e'']"
    by (simp add: suggestions_of_def ascii_def LF_def trim_def isWhiteSpace_def)
  ultimately have a: "fst (suggest_demo ?reply)
     = Inr [ascii ''alpha'', ascii ''beta'', ascii ''c'', ascii ''d'', ascii ''e'']"
    by (simp add: suggest_demo_def)
  let ?n = "no_key_env (\<lambda>req. Inr (chat_response (ascii ''alpha'')))"
  have "API_KEY ?n = []"
    by (simp add: API_KEY_def no_key_env_def)
  with generateSuggestions_result [of ?n "ascii ''graph''"]
  have b: "generateSuggestions ?n (ascii ''graph'') = (Inr [placeholder], [])"
    by blast
  let ?f = "demo_env (\<lambda>req. Inl NetworkError)"
  have "\<forall>s. fst (sendChatRequest ?f (suggestion_messages (ascii ''graph'')) (ascii ''openai/gpt-4o'') (ascii ''0.7''))
      \<noteq> Inr (JStr s)"
    by (simp add: sendChatRequest_def demo_env_def API_KEY_def ascii_def)
  with generateSuggestions_result [of ?f "ascii ''graph''"]
  have c: "fst (generateSuggestions ?f (ascii ''graph'')) = Inr [placeholder]"
    by blast
  from a b c show ?thesis by blast
qed

subsection \<open>C9: the reader is cancelled\<close>

text \<open>
  C9: once the reader exists (a key, a response that is ok, a body), the events of the
  call end with the one cancellation of the reader, whatever the reads, the parser and
  the callback do and whether the call returns or fails.
\<close>

theorem reader_cancelled_on_every_exit:
  assumes "API_KEY e \<noteq> []"
    and "fetch e (streaming_request e msgs mdl temp) = Inr r"
    and "ok r"
    and "body r = Some chunks"
  shows "\<exists>before. snd (sendStreamingChatRequest e parse msgs onChunk mdl temp) = before @ [Cancel] \<and>
           Cancel \<notin> set before"
proof -
  let ?st = "snd (read_stream parse onChunk chunks)"
  have "snd (sendStreamingChatRequest e parse msgs onChunk mdl temp) =
        (Fetch (streaming_request e msgs mdl temp) # map OnChunk (calls ?st)) @ [Cancel]"
    by (simp add: streaming_with_reader [OF assms])
  moreover have "Cancel \<notin> set (Fetch (streaming_request e msgs mdl temp) # map OnChunk (calls ?st))"
    by auto
  ultimately show ?thesis by blast
qed

text \<open>A read that rejects after one frame, with a callback that throws.\<close>

theorem reader_cancelled_witness:
  "API_KEY (demo_env (\<lambda>req. Inr (streamed [Inr (delta_frame ''a'' @ [LF]), Inl NetworkError]))) \<noteq> [] \<and>
   ok (streamed [Inr (delta_frame ''a'' @ [LF]), Inl NetworkError]) \<and>
   fst (stream_demo throws [Inr (delta_frame ''a'' @ [LF]), Inl NetworkError]) = Inl NetworkError \<and>
   tl (snd (stream_demo throws [Inr (delta_frame ''a'' @ [LF]), Inl NetworkError]))
     = [OnChunk (JStr (ascii ''a'')), Cancel] \<and>
   (\<exists>before. snd (stream_demo throws [Inr (delta_frame ''a'' @ [LF]), Inl NetworkError]) = before @ [Cancel] \<and>
      Cancel \<notin> set before)"
proof -
  let ?chunks = "[Inr (delta_frame ''a'' @ [LF]), Inl NetworkError]"
  let ?e = "demo_env (\<lambda>req. Inr (streamed ?chunks))"
  have k: "API_KEY ?e \<noteq> []"
    by (simp add: API_KEY_def demo_env_def ascii_def)
  have f: "fetch ?e (streaming_request ?e [\<lparr>role = User, content = ascii ''hi''\<rparr>]
             (ascii ''google/gemini-2.0-flash-lite-001'') (ascii ''0.7'')) = Inr (streamed ?chunks)"
    by (simp add: demo_env_def)
  have o: "ok (streamed ?chunks)"
    by (simp add: ok_def streamed_def)
  have b: "body (streamed ?chunks) = Some ?chunks"
    by (simp add: streamed_def)
  have c: "\<exists>before. snd (stream_demo throws ?chunks) = before @ [Cancel] \<and> Cancel \<notin> set before"
    unfolding stream_demo_def by (rule reader_cancelled_on_every_exit [OF k f o b])
  have r: "fst (stream_demo throws ?chunks) = Inl NetworkError"
    by (simp add: stream_run decoder_run json_reader)
  have t: "tl (snd (stream_demo throws ?chunks)) = [OnChunk (JStr (ascii ''a'')), Cancel]"
    by (simp add: stream_run decoder_run json_reader)
  from k o r t c show ?thesis by blast
qed

subsection \<open>C10: a reply that is blank\<close>

text \<open>
  C10: when \<^verbatim>\<open>sendChatRequest\<close> resolves with a string that is empty or holds only
  white space and line feeds, \<^verbatim>\<open>generateSuggestions\<close> returns the empty list, not
  the placeholder.
\<close>

theorem blank_response_gives_no_suggestions:
  assumes "fst (sendChatRequest e (suggestion_messages t) (ascii ''openai/gpt-4o'') (ascii ''0.7'')) = Inr (JStr s)"
    and "list_all isWhiteSpace s"
  shows "fst (generateSuggestions e t) = Inr [] \<and> fst (generateSuggestions e t) \<noteq> Inr [placeholder]"
  using assms by (simp add: generateSuggestions_resolved suggestions_of_blank)

text \<open>A reply of blanks and line feeds, and the empty reply.\<close>

theorem blank_response_witness:
  "list_all isWhiteSpace (ascii ''  '' @ [LF] @ ascii '' '' @ [LF]) \<and>
   fst (suggest_demo (ascii ''  '' @ [LF] @ ascii '' '' @ [LF])) = Inr [] \<and>
   fst (suggest_demo []) = Inr []"
proof -
  let ?reply = "ascii ''  '' @ [LF] @ ascii '' '' @ [LF]"
  let ?e = "\<lambda>reply. demo_env (\<lambda>req. Inr (chat_response reply))"
  have w: "list_all isWhiteSpace ?reply"
    by (simp add: ascii_def LF_def isWhiteSpace_def)
  have "?reply \<noteq> []" by (simp add: ascii_def)
  then have r: "fst (sendChatRequest (?e ?reply) (suggestion_messages (ascii ''graph'')) (ascii ''openai/gpt-4o'') (ascii ''0.7''))
      = Inr (JStr ?reply)"
    by (simp add: demo_reply)
  have a: "fst (suggest_demo ?reply) = Inr []"
    unfolding suggest_demo_def using blank_response_gives_no_suggestions [OF r w] by blast
  have r0: "fst (sendChatRequest (?e []) (suggestion_messages (ascii ''graph'')) (ascii ''openai/gpt-4o'') (ascii ''0.7''))
      = Inr (JStr [])"
    by (simp add: demo_reply)
  have b: "fst (suggest_demo []) = Inr []"
    unfolding suggest_demo_def using blank_response_gives_no_suggestions [OF r0] by simp
  from w a b show ?thesis by blast
qed

end
